theory Spec2Isabelle
  imports Main "HOL-Library.Char_ord" "HOL-Library.List_Lexorder"
begin

section \<open>Python strings\<close>

text \<open>
  A Python \<open>str\<close> is modelled as a \<open>string\<close> whose characters are the code points
  0..255, so the model covers every \<open>str\<close> made of such code points. On that range
  \<open>str.isspace\<close> holds for 9-13, 28-32, 133 and 160, and \<open>str.lower\<close> adds 32 to
  65-90 and to 192-222 except 215; both facts are the behaviour of CPython 3.
\<close>

definition py_isspace :: "char \<Rightarrow> bool" where
  "py_isspace c = (let n = (of_char c :: nat) in
     (9 \<le> n \<and> n \<le> 13) \<or> (28 \<le> n \<and> n \<le> 32) \<or> n = 133 \<or> n = 160)"

definition py_isupper :: "char \<Rightarrow> bool" where
  "py_isupper c = (let n = (of_char c :: nat) in
     (65 \<le> n \<and> n \<le> 90) \<or> (192 \<le> n \<and> n \<le> 222 \<and> n \<noteq> 215))"

text \<open>Adding 32 to a code point of those ranges is setting bit 5, which is clear there.\<close>

definition py_lower_char :: "char \<Rightarrow> char" where
  "py_lower_char c = (if py_isupper c
     then (case c of Char b0 b1 b2 b3 b4 b5 b6 b7 \<Rightarrow> Char b0 b1 b2 b3 b4 True b6 b7)
     else c)"

definition py_lower :: "string \<Rightarrow> string" where
  "py_lower s = map py_lower_char s"

definition py_lstrip :: "string \<Rightarrow> string" where
  "py_lstrip s = dropWhile py_isspace s"

definition py_rstrip :: "string \<Rightarrow> string" where
  "py_rstrip s = rev (dropWhile py_isspace (rev s))"

definition py_strip :: "string \<Rightarrow> string" where
  "py_strip s = py_rstrip (py_lstrip s)"

text \<open>\<open>s.split(sep)\<close> for a one-character separator: one more piece than separators.\<close>

fun py_split :: "char \<Rightarrow> string \<Rightarrow> string list" where
  "py_split sep [] = [[]]"
| "py_split sep (c # cs) =
     (if c = sep then [] # py_split sep cs
      else (case py_split sep cs of
              w # ws \<Rightarrow> (c # w) # ws
            | [] \<Rightarrow> [[c]]))"

fun py_join :: "string \<Rightarrow> string list \<Rightarrow> string" where
  "py_join sep [] = []"
| "py_join sep [x] = x"
| "py_join sep (x # y # ys) = x @ sep @ py_join sep (y # ys)"

text \<open>Truthiness of a value of type \<open>str | None\<close>: neither \<open>None\<close> nor empty.\<close>

fun py_truthy :: "string option \<Rightarrow> bool" where
  "py_truthy None = False"
| "py_truthy (Some s) = (s \<noteq> [])"

text \<open>\<open>value or ""\<close>.\<close>

fun or_empty :: "string option \<Rightarrow> string" where
  "or_empty None = []"
| "or_empty (Some s) = s"

section \<open>Errors\<close>

text \<open>
  The source raises \<open>ValueError\<close>, \<open>RuntimeError\<close> and \<open>CloudflareError\<close> with a
  message; each raise site is one constructor, named after the failure it reports:
  \<^item> \<open>AliasValidationError\<close>: the \<open>ValueError\<close> of \<open>create_alias\<close> for an empty base domain;
  \<^item> \<open>AliasCollisionError\<close>: the \<open>ValueError\<close> of \<open>create_alias\<close> after the retries;
  \<^item> \<open>IntegrityError\<close>: the store refuses an \<open>INSERT\<close> that breaks a unique index;
  \<^item> \<open>IpValidationError\<close>, \<open>HostsValidationError\<close>: the \<open>CloudflareError\<close>s of
    \<open>sync_a_records\<close> for an empty address and for an empty host list;
  \<^item> \<open>ZoneConfigurationError\<close>: the \<open>CloudflareError\<close> of \<open>require_zone_id\<close>;
  \<^item> \<open>CredentialsConfigurationError\<close>: the \<open>CloudflareError\<close> of \<open>build_headers\<close>;
  \<^item> \<open>ProviderError\<close>: the \<open>CloudflareError\<close> of \<open>_request\<close>, with the reply's errors;
  \<^item> \<open>TransportError\<close>: what \<open>requests\<close> or \<open>response.json()\<close> raises itself;
  \<^item> \<open>NetworkResolutionError\<close>: the \<open>RuntimeError\<close> of \<open>fetch_public_ip\<close>, with
    \<open>last_error\<close>;
  \<^item> \<open>CommandValidationError\<close>, \<open>TokenValidationError\<close>: the \<open>ValueError\<close>s of
    \<open>run_custom_command\<close> and \<open>install_connector\<close>;
  \<^item> \<open>ScriptConfigurationError\<close>: the \<open>RuntimeError\<close> of \<open>install_connector\<close>;
  \<^item> \<open>ProcessTimeoutError\<close>, \<open>ProcessSpawnError\<close>, \<open>OutputDecodeError\<close>: what
    \<open>subprocess.run\<close> raises (\<open>TimeoutExpired\<close>, an \<open>OSError\<close>, and the
    \<open>UnicodeDecodeError\<close> of \<open>text=True\<close>).
\<close>

datatype underlying_error =
    RequestException string
  | HTTPStatusError string
  | JSONDecodeError
  | AttributeError

datatype error =
    AliasValidationError
  | AliasCollisionError
  | IntegrityError
  | IpValidationError
  | HostsValidationError
  | ZoneConfigurationError
  | CredentialsConfigurationError
  | ProviderError "(string \<times> string) list"
  | TransportError string
  | NetworkResolutionError "underlying_error option"
  | CommandValidationError
  | TokenValidationError
  | ScriptConfigurationError
  | ProcessTimeoutError
  | ProcessSpawnError
  | OutputDecodeError

section \<open>The relational store and the sources of randomness\<close>

record alias_row =
  row_id :: string
  row_base_domain :: string
  row_subdomain :: string
  row_masked_subdomain :: string
  row_created_at :: nat

record log_row =
  log_id :: nat
  log_command :: string
  log_stdout :: string
  log_stderr :: string
  log_status :: string

text \<open>
  The three tables of \<open>database.py\<close>, with the counters of the random draws made so
  far and the store's clock. \<open>app_settings\<close> has a primary key and a nullable value.
\<close>

record world =
  domain_aliases :: "alias_row list"
  app_settings :: "string \<Rightarrow> string option option"
  cloudflared_logs :: "log_row list"
  executed :: "string list list"
  choices_drawn :: nat
  uuids_drawn :: nat
  clock :: nat

text \<open>
  What the process gets from outside: the \<open>i\<close>-th result of \<open>secrets.choice\<close> (as an
  index), the \<open>i\<close>-th \<open>uuid.uuid4().hex\<close>, and the environment variable
  \<open>SERVER_PUBLIC_IP\<close>.
\<close>

record environment =
  choice_at :: "nat \<Rightarrow> nat"
  uuid_at :: "nat \<Rightarrow> string"
  server_public_ip :: string

section \<open>\<open>services/settings.py\<close>\<close>

definition DEFAULT_SETTINGS :: "environment \<Rightarrow> string \<Rightarrow> string option" where
  "DEFAULT_SETTINGS e =
     [''site_name'' \<mapsto> ''Sanex Group'',
      ''local_ip'' \<mapsto> ''127.0.0.1'',
      ''public_ip'' \<mapsto> server_public_ip e,
      ''ssl_hosts'' \<mapsto> ''sanexgroup.com'']"

definition get_settings :: "environment \<Rightarrow> world \<Rightarrow> string \<Rightarrow> string option" where
  "get_settings e w =
     (\<lambda>k. case app_settings w k of
             Some (Some v) \<Rightarrow> Some v
           | _ \<Rightarrow> DEFAULT_SETTINGS e k)"

fun update_settings :: "(string \<times> string) list \<Rightarrow> world \<Rightarrow> world" where
  "update_settings [] w = w"
| "update_settings ((k, v) # updates) w =
     update_settings updates (w\<lparr>app_settings := (app_settings w)(k \<mapsto> Some v)\<rparr>)"

section \<open>\<open>services/domain_aliases.py\<close>\<close>

definition RANDOM_ALPHABET :: string where
  "RANDOM_ALPHABET = ''abcdefghijklmnopqrstuvwxyz0123456789''"

text \<open>The class \<open>[a-z0-9-]\<close> of \<open>_SUBDOMAIN_SANITIZER\<close>, which removes its complement.\<close>

definition subdomain_char :: "char \<Rightarrow> bool" where
  "subdomain_char c = (c \<in> set RANDOM_ALPHABET \<or> c = CHR ''-'')"

definition SUBDOMAIN_SANITIZER_sub :: "string \<Rightarrow> string" where
  "SUBDOMAIN_SANITIZER_sub s = filter subdomain_char s"

text \<open>
  \<open>_SCHEME_PREFIX.sub("", s)\<close> for \<open>^https?://\<close> with \<open>re.IGNORECASE\<close>: the pattern is
  anchored, so at most one match is removed.
\<close>

definition SCHEME_PREFIX_sub :: "string \<Rightarrow> string" where
  "SCHEME_PREFIX_sub s =
     (if py_lower (take 8 s) = ''https://'' then drop 8 s
      else if py_lower (take 7 s) = ''http://'' then drop 7 s
      else s)"

definition normalize_domain :: "string \<Rightarrow> string" where
  "normalize_domain v =
     (let cleaned = py_lower (py_strip v);
          cleaned = SCHEME_PREFIX_sub cleaned
      in if CHR ''/'' \<in> set cleaned
         then takeWhile (\<lambda>c. c \<noteq> CHR ''/'') cleaned
         else cleaned)"

definition normalize_subdomain :: "string option \<Rightarrow> string" where
  "normalize_subdomain v =
     (let cleaned = map (\<lambda>c. if c = CHR '' '' then CHR ''-'' else c)
                      (py_lower (py_strip (or_empty v)))
      in SUBDOMAIN_SANITIZER_sub cleaned)"

definition join_host :: "string \<Rightarrow> string \<Rightarrow> string" where
  "join_host sub base =
     (let sub = py_strip sub
      in if sub = [] then base
         else if base \<noteq> [] then sub @ ''.'' @ base else sub)"

definition host_to_url :: "string \<Rightarrow> string" where
  "host_to_url host = (if host \<noteq> [] then ''https://'' @ host else [])"

record alias_view = alias_row +
  target_host :: string
  masked_host :: string
  target_url :: string
  masked_url :: string

text \<open>The empty dictionary that \<open>_decorate_alias_row\<close> returns for no row is \<open>None\<close>.\<close>

fun decorate_alias_row :: "alias_row option \<Rightarrow> alias_view option" where
  "decorate_alias_row None = None"
| "decorate_alias_row (Some r) =
     (let th = join_host (row_subdomain r) (row_base_domain r);
          mh = join_host (row_masked_subdomain r) (row_base_domain r)
      in Some (alias_row.extend r
           \<lparr>target_host = th, masked_host = mh,
            target_url = host_to_url th, masked_url = host_to_url mh\<rparr>))"

definition generate_masked_subdomain :: "environment \<Rightarrow> int \<Rightarrow> world \<Rightarrow> string \<times> world" where
  "generate_masked_subdomain e len w =
     (let n = nat (max 8 len)
      in (map (\<lambda>i. RANDOM_ALPHABET ! (choice_at e i mod length RANDOM_ALPHABET))
            [choices_drawn w ..< choices_drawn w + n],
          w\<lparr>choices_drawn := choices_drawn w + n\<rparr>))"

definition masked_exists :: "world \<Rightarrow> string \<Rightarrow> string \<Rightarrow> bool" where
  "masked_exists w base masked =
     list_ex (\<lambda>r. row_base_domain r = base \<and> row_masked_subdomain r = masked)
       (domain_aliases w)"

text \<open>The set comprehension and the loop of \<open>_sync_ssl_hosts\<close>, then the function.\<close>

definition current_ssl_hosts :: "string \<Rightarrow> string set" where
  "current_ssl_hosts raw =
     set (map (\<lambda>item. py_lower (py_strip item))
            (filter (\<lambda>item. item \<noteq> [] \<and> py_strip item \<noteq> []) (py_split CHR '','' raw)))"

fun add_hosts :: "string list \<Rightarrow> string set \<times> bool \<Rightarrow> string set \<times> bool" where
  "add_hosts [] acc = acc"
| "add_hosts (host # hosts) (current_hosts, changed) =
     (if host \<notin> current_hosts
      then add_hosts hosts (insert host current_hosts, True)
      else add_hosts hosts (current_hosts, changed))"

definition sync_ssl_hosts :: "environment \<Rightarrow> string list \<Rightarrow> world \<Rightarrow> world" where
  "sync_ssl_hosts e hosts w =
     (let normalized_hosts = map (\<lambda>host. py_lower (py_strip host))
                               (filter (\<lambda>host. host \<noteq> []) hosts)
      in if normalized_hosts = [] then w
         else (let settings = get_settings e w;
                   (current_hosts, changed) =
                      add_hosts normalized_hosts
                        (current_ssl_hosts (or_empty (settings ''ssl_hosts'')), False)
               in if changed
                  then update_settings
                         [(''ssl_hosts'', py_join '', '' (sorted_list_of_set current_hosts))] w
                  else w))"

text \<open>
  The \<open>INSERT\<close> of \<open>create_alias\<close>, under the primary key on \<open>id\<close> and the unique
  indexes \<open>idx_domain_alias_masked\<close> (on \<open>masked_subdomain\<close> alone) and
  \<open>idx_domain_alias_real\<close> (on \<open>base_domain, subdomain\<close>) of \<open>_ensure_schema_sqlite\<close>.
\<close>

definition insert_alias :: "alias_row \<Rightarrow> world \<Rightarrow> error + world" where
  "insert_alias r w =
     (if list_ex (\<lambda>x. row_id x = row_id r
                     \<or> row_masked_subdomain x = row_masked_subdomain r
                     \<or> (row_base_domain x = row_base_domain r
                         \<and> row_subdomain x = row_subdomain r))
           (domain_aliases w)
      then Inl IntegrityError
      else Inr (w\<lparr>domain_aliases := domain_aliases w @ [r]\<rparr>))"

definition fetch_alias_by_id :: "world \<Rightarrow> string \<Rightarrow> alias_row option" where
  "fetch_alias_by_id w i = find (\<lambda>r. row_id r = i) (domain_aliases w)"

text \<open>The \<open>while\<close> loop of \<open>create_alias\<close>, with its counter \<open>attempts\<close>.\<close>

function regenerate_masked ::
  "environment \<Rightarrow> string \<Rightarrow> string \<Rightarrow> nat \<Rightarrow> world \<Rightarrow> string \<times> world" where
  "regenerate_masked e base masked attempts w =
     (if masked_exists w base masked \<and> attempts < 5
      then regenerate_masked e base (fst (generate_masked_subdomain e 24 w)) (attempts + 1)
             (snd (generate_masked_subdomain e 24 w))
      else (masked, w))"
  by pat_completeness auto
termination
  by (relation "measure (\<lambda>(e, base, masked, attempts, w). 5 - attempts)") auto

text \<open>The equation of the loop is applied by hand, never by the simplifier.\<close>

declare regenerate_masked.simps [simp del]

text \<open>
  \<open>create_alias\<close>. The source tests the collision again, and raises, inside the branch
  that ran the loop; here the test follows the branch, which is the same: when the first
  label is free the loop is not run and the test fails.
\<close>

definition create_alias ::
  "environment \<Rightarrow> string \<Rightarrow> string \<Rightarrow> string option \<Rightarrow> world \<Rightarrow> (error + alias_view option) \<times> world" where
  "create_alias e base_domain subdomain masked_subdomain w =
     (let base = normalize_domain base_domain
      in if base = [] then (Inl AliasValidationError, w)
         else
          (let real_subdomain = normalize_subdomain (Some subdomain);
               masked = (if py_truthy masked_subdomain
                         then normalize_subdomain masked_subdomain else []);
               (masked, w) = (if masked = [] then generate_masked_subdomain e 24 w
                              else (masked, w));
               (masked, w) = (if masked_exists w base masked
                              then regenerate_masked e base masked 0 w
                              else (masked, w))
           in if masked_exists w base masked then (Inl AliasCollisionError, w)
              else
               (let alias_id = uuid_at e (uuids_drawn w);
                    w = w\<lparr>uuids_drawn := uuids_drawn w + 1\<rparr>
                in case insert_alias
                          \<lparr>row_id = alias_id, row_base_domain = base,
                           row_subdomain = real_subdomain, row_masked_subdomain = masked,
                           row_created_at = clock w\<rparr> w of
                     Inl err \<Rightarrow> (Inl err, w)
                   | Inr w \<Rightarrow>
                       (let w = sync_ssl_hosts e
                                  [join_host real_subdomain base, join_host masked base] w
                        in (Inr (decorate_alias_row (fetch_alias_by_id w alias_id)), w)))))"

section \<open>\<open>config.py\<close> and \<open>services/cloudflare_ssl.py\<close>\<close>

text \<open>
  \<open>CloudflareConfig\<close>: each field is an environment variable read once, at import.
  \<open>ssl_hosts\<close> is computed from \<open>CLOUDFLARE_SSL_HOSTS\<close>.
\<close>

record cloudflare_config =
  account_id :: "string option"
  api_token :: "string option"
  auth_email :: "string option"
  auth_key :: "string option"
  zone_id :: "string option"
  CLOUDFLARE_SSL_HOSTS :: "string option"

definition ssl_hosts :: "cloudflare_config \<Rightarrow> string list" where
  "ssl_hosts cfg =
     map py_strip
       (filter (\<lambda>host. host \<noteq> [] \<and> py_strip host \<noteq> [])
          (py_split CHR '','' (or_empty (CLOUDFLARE_SSL_HOSTS cfg))))"

definition API_BASE_URL :: string where
  "API_BASE_URL = ''https://api.cloudflare.com/client/v4''"

text \<open>The headers besides \<open>Content-Type\<close>, which is always sent.\<close>

datatype auth_headers = XAuth string string | Bearer string

definition build_headers :: "cloudflare_config \<Rightarrow> error + auth_headers" where
  "build_headers cfg =
     (if py_truthy (auth_email cfg) \<and> py_truthy (auth_key cfg)
      then Inr (XAuth (or_empty (auth_email cfg)) (or_empty (auth_key cfg)))
      else if py_truthy (api_token cfg)
      then Inr (Bearer (or_empty (api_token cfg)))
      else Inl CredentialsConfigurationError)"

definition require_zone_id :: "cloudflare_config \<Rightarrow> error + string" where
  "require_zone_id cfg =
     (if \<not> py_truthy (zone_id cfg) then Inl ZoneConfigurationError
      else Inr (or_empty (zone_id cfg)))"

definition default_host_list :: "environment \<Rightarrow> world \<Rightarrow> string list" where
  "default_host_list e w =
     map py_strip
       (filter (\<lambda>host. py_strip host \<noteq> [])
          (py_split CHR '','' (or_empty (get_settings e w ''ssl_hosts''))))"

definition configured_host_list :: "environment \<Rightarrow> cloudflare_config \<Rightarrow> world \<Rightarrow> string list" where
  "configured_host_list e cfg w =
     (let hosts = default_host_list e w in if hosts \<noteq> [] then hosts else ssl_hosts cfg)"

section \<open>\<open>services/cloudflare_dns.py\<close>\<close>

datatype http_method = GET | PUT | POST

record dns_query =
  q_type :: string
  q_name :: string
  q_page :: int
  q_per_page :: int

record dns_payload =
  p_type :: string
  p_name :: string
  p_content :: string
  p_ttl :: int
  p_proxied :: bool

record request =
  req_method :: http_method
  req_url :: string
  req_headers :: auth_headers
  req_params :: "dns_query option"
  req_json :: "dns_payload option"

text \<open>
  What the code reads of a reply's body: the truth value of \<open>data.get("success")\<close>, the
  list \<open>data.get("result") or []\<close> of records (dictionaries of strings) and the list
  \<open>data.get("errors") or []\<close> as pairs of code and message. \<open>Raised\<close> is a reply for
  which \<open>requests.request\<close> or \<open>response.json()\<close> raises.
\<close>

record api_data =
  d_success :: bool
  d_result :: "(string \<times> string) list list"
  d_errors :: "(string \<times> string) list"

datatype reply = Raised string | Reply bool api_data

text \<open>
  The provider is a parameter: any function from its state and a request to a reply and
  its next state. The network state pairs the provider's state with the exchanges made.
\<close>

type_synonym 'p provider = "'p \<Rightarrow> request \<Rightarrow> reply \<times> 'p"

type_synonym 'p net = "'p \<times> (request \<times> reply) list"

definition request' ::
  "cloudflare_config \<Rightarrow> 'p provider \<Rightarrow> http_method \<Rightarrow> string \<Rightarrow> dns_query option \<Rightarrow>
   dns_payload option \<Rightarrow> 'p net \<Rightarrow> (error + api_data) \<times> 'p net" where
  "request' cfg prov m path params js st =
     (case build_headers cfg of
        Inl err \<Rightarrow> (Inl err, st)
      | Inr hs \<Rightarrow>
          (let req = \<lparr>req_method = m, req_url = API_BASE_URL @ path, req_headers = hs,
                      req_params = params, req_json = js\<rparr>;
               answer = prov (fst st) req;
               st = (snd answer, snd st @ [(req, fst answer)])
           in case fst answer of
                Raised msg \<Rightarrow> (Inl (TransportError msg), st)
              | Reply ok data \<Rightarrow>
                  if \<not> ok \<or> \<not> d_success data then (Inl (ProviderError (d_errors data)), st)
                  else (Inr data, st)))"

definition find_dns_record ::
  "cloudflare_config \<Rightarrow> 'p provider \<Rightarrow> string \<Rightarrow> string \<Rightarrow> 'p net \<Rightarrow>
   (error + (string \<times> string) list option) \<times> 'p net" where
  "find_dns_record cfg prov zone host st =
     (case request' cfg prov GET (''/zones/'' @ zone @ ''/dns_records'')
             (Some \<lparr>q_type = ''A'', q_name = host, q_page = 1, q_per_page = 1\<rparr>) None st of
        (Inl err, st) \<Rightarrow> (Inl err, st)
      | (Inr data, st) \<Rightarrow>
          (Inr (case d_result data of [] \<Rightarrow> None | r # _ \<Rightarrow> Some r), st))"

text \<open>The two loops of \<open>_determine_hosts\<close>, then the function.\<close>

fun cleaned_loop :: "string list \<Rightarrow> string list \<Rightarrow> string list" where
  "cleaned_loop [] cleaned = cleaned"
| "cleaned_loop (host # hosts) cleaned =
     (let v = py_strip host
      in if v = [] then cleaned_loop hosts cleaned
         else cleaned_loop hosts (cleaned @ [py_lower v]))"

fun deduped_loop :: "string list \<Rightarrow> string list \<Rightarrow> string set \<Rightarrow> string list" where
  "deduped_loop [] deduped seen = deduped"
| "deduped_loop (host # hosts) deduped seen =
     (if host \<in> seen then deduped_loop hosts deduped seen
      else deduped_loop hosts (deduped @ [host]) (insert host seen))"

definition determine_hosts :: "cloudflare_config \<Rightarrow> string list option \<Rightarrow> string list" where
  "determine_hosts cfg hosts =
     (let hosts = (case hosts of None \<Rightarrow> ssl_hosts cfg | Some hs \<Rightarrow> hs)
      in deduped_loop (cleaned_loop hosts []) [] {})"

text \<open>\<open>existing.get("id")\<close> inside an f-string: a missing key prints as \<open>None\<close>.\<close>

definition record_id_of :: "(string \<times> string) list \<Rightarrow> string" where
  "record_id_of existing = (case map_of existing ''id'' of None \<Rightarrow> ''None'' | Some i \<Rightarrow> i)"

text \<open>Truthiness of \<open>existing\<close>: a dictionary that is not empty.\<close>

fun dict_truthy :: "(string \<times> string) list option \<Rightarrow> bool" where
  "dict_truthy None = False"
| "dict_truthy (Some d) = (d \<noteq> [])"

definition proxied_value :: "cloudflare_config \<Rightarrow> bool option \<Rightarrow> bool" where
  "proxied_value cfg proxied =
     (let default_proxied = (if py_truthy (auth_email cfg) then auth_email cfg
                             else api_token cfg)
      in case proxied of
           Some b \<Rightarrow> b
         | None \<Rightarrow> (if py_truthy default_proxied then True else False))"

fun sync_loop ::
  "cloudflare_config \<Rightarrow> 'p provider \<Rightarrow> string \<Rightarrow> string \<Rightarrow> int \<Rightarrow> bool \<Rightarrow> string list \<Rightarrow>
   (string \<times> string) list \<Rightarrow> 'p net \<Rightarrow> (error + (string \<times> string) list) \<times> 'p net" where
  "sync_loop cfg prov zone ip ttl px [] results st = (Inr results, st)"
| "sync_loop cfg prov zone ip ttl px (host # hosts) results st =
     (let payload = \<lparr>p_type = ''A'', p_name = host, p_content = ip, p_ttl = ttl,
                     p_proxied = px\<rparr>
      in case find_dns_record cfg prov zone host st of
           (Inl err, st) \<Rightarrow> (Inl err, st)
         | (Inr existing, st) \<Rightarrow>
             if dict_truthy existing
             then (case request' cfg prov PUT
                          (''/zones/'' @ zone @ ''/dns_records/''
                             @ record_id_of (case existing of Some d \<Rightarrow> d | None \<Rightarrow> []))
                          None (Some payload) st of
                     (Inl err, st) \<Rightarrow> (Inl err, st)
                   | (Inr _, st) \<Rightarrow>
                       sync_loop cfg prov zone ip ttl px hosts
                         (results @ [(host, ''updated'')]) st)
             else (case request' cfg prov POST (''/zones/'' @ zone @ ''/dns_records'')
                          None (Some payload) st of
                     (Inl err, st) \<Rightarrow> (Inl err, st)
                   | (Inr _, st) \<Rightarrow>
                       sync_loop cfg prov zone ip ttl px hosts
                         (results @ [(host, ''created'')]) st))"

definition sync_a_records ::
  "cloudflare_config \<Rightarrow> 'p provider \<Rightarrow> string \<Rightarrow> string list option \<Rightarrow> bool option \<Rightarrow>
   'p net \<Rightarrow> (error + (string \<times> string) list) \<times> 'p net" where
  "sync_a_records cfg prov ip_address hosts proxied st =
     (if ip_address = [] then (Inl IpValidationError, st)
      else case require_zone_id cfg of
             Inl err \<Rightarrow> (Inl err, st)
           | Inr zone \<Rightarrow>
               (let resolved_hosts = determine_hosts cfg hosts
                in if resolved_hosts = [] then (Inl HostsValidationError, st)
                   else sync_loop cfg prov zone ip_address 120 (proxied_value cfg proxied)
                          resolved_hosts [] st))"

section \<open>\<open>services/public_ip.py\<close>\<close>

definition IP_ENDPOINTS :: "(string \<times> string option) list" where
  "IP_ENDPOINTS =
     [(''https://api.ipify.org?format=json'', Some ''ip''),
      (''https://ifconfig.co/json'', Some ''ip''),
      (''https://checkip.amazonaws.com'', None),
      (''https://ipv4.icanhazip.com'', None)]"

text \<open>
  A value of a JSON object as the code uses it: \<open>None\<close>, a string, or anything else
  with its truth value and its \<open>str()\<close>. A decoded body: a false value (for which
  \<open>data or {}\<close> is the empty dictionary), a dictionary, or a true value that is not a
  dictionary, on which \<open>.get\<close> raises \<open>AttributeError\<close>.
\<close>

datatype py_value = PyNone | PyStr string | PyOther bool string

datatype json_doc = JsonFalsy | JsonDict "(string \<times> py_value) list" | JsonOther

fun value_truthy :: "py_value \<Rightarrow> bool" where
  "value_truthy PyNone = False"
| "value_truthy (PyStr s) = (s \<noteq> [])"
| "value_truthy (PyOther t s) = t"

fun py_str :: "py_value \<Rightarrow> string" where
  "py_str PyNone = ''None''"
| "py_str (PyStr s) = s"
| "py_str (PyOther t s) = s"

fun data_get :: "json_doc \<Rightarrow> string \<Rightarrow> underlying_error + py_value" where
  "data_get JsonFalsy field = Inr PyNone"
| "data_get (JsonDict d) field = Inr (case map_of d field of None \<Rightarrow> PyNone | Some v \<Rightarrow> v)"
| "data_get JsonOther field = Inl AttributeError"

text \<open>
  What one endpoint does when asked: \<open>requests.get\<close> raises, \<open>raise_for_status\<close>
  raises, or the response passes with its text and its decoded body (\<open>None\<close> when
  \<open>response.json()\<close> raises).
\<close>

datatype http_outcome =
    RequestRaises string
  | StatusRaises string
  | Passes string "json_doc option"

text \<open>
  The body of the loop of \<open>fetch_public_ip\<close>: \<open>Inl\<close> is the exception caught,
  \<open>Inr (Some ip)\<close> a \<open>return\<close>, and \<open>Inr None\<close> the end of the \<open>try\<close> block reached
  with neither.
\<close>

fun try_endpoint :: "string option \<Rightarrow> http_outcome \<Rightarrow> underlying_error + string option" where
  "try_endpoint field (RequestRaises msg) = Inl (RequestException msg)"
| "try_endpoint field (StatusRaises msg) = Inl (HTTPStatusError msg)"
| "try_endpoint field (Passes text js) =
     (if py_truthy field
      then (case js of
              None \<Rightarrow> Inl JSONDecodeError
            | Some data \<Rightarrow>
                (case data_get data (or_empty field) of
                   Inl err \<Rightarrow> Inl err
                 | Inr v \<Rightarrow> if value_truthy v then Inr (Some (py_strip (py_str v)))
                            else Inr None))
      else Inr (Some (py_strip text)))"

text \<open>
  The loop, over any table of endpoints, with \<open>last_error\<close> and the list of the URLs
  asked so far; \<open>net\<close> gives the outcome of asking a URL.
\<close>

fun fetch_loop ::
  "(string \<times> string option) list \<Rightarrow> (string \<Rightarrow> http_outcome) \<Rightarrow> underlying_error option \<Rightarrow>
   string list \<Rightarrow> (error + string) \<times> string list" where
  "fetch_loop [] net last_error asked = (Inl (NetworkResolutionError last_error), asked)"
| "fetch_loop ((url, field) # endpoints) net last_error asked =
     (case try_endpoint field (net url) of
        Inr (Some ip) \<Rightarrow> (Inr ip, asked @ [url])
      | Inr None \<Rightarrow> fetch_loop endpoints net last_error (asked @ [url])
      | Inl exc \<Rightarrow> fetch_loop endpoints net (Some exc) (asked @ [url]))"

definition fetch_public_ip :: "(string \<Rightarrow> http_outcome) \<Rightarrow> (error + string) \<times> string list" where
  "fetch_public_ip net = fetch_loop IP_ENDPOINTS net None []"

section \<open>\<open>services/process_runner.py\<close> and \<open>services/cloudflare_tunnel.py\<close>\<close>

text \<open>
  \<open>shlex.quote\<close>: the safe characters are those of \<open>[\w@%+=:,./-]\<close> under \<open>re.ASCII\<close>.
\<close>

definition shlex_safe :: "char \<Rightarrow> bool" where
  "shlex_safe c =
     (c \<in> set ''abcdefghijklmnopqrstuvwxyzABCDEFGHIJKLMNOPQRSTUVWXYZ0123456789_@%+=:,./-'')"

definition shlex_quote :: "string \<Rightarrow> string" where
  "shlex_quote s =
     (if s = [] then [CHR 0x27, CHR 0x27]
      else if list_all shlex_safe s then s
      else [CHR 0x27]
           @ concat (map (\<lambda>c. if c = CHR 0x27
                               then [CHR 0x27, CHR 0x22, CHR 0x27, CHR 0x22, CHR 0x27]
                               else [c]) s)
           @ [CHR 0x27])"

text \<open>
  What \<open>subprocess.run\<close> with \<open>text=True\<close> does with an argument list: the process
  completes with a return code and its two outputs decode as text; or the process
  completes with a return code and an output does not decode, and the call raises
  \<open>UnicodeDecodeError\<close>; or the call raises \<open>TimeoutExpired\<close>; or it raises because the
  program cannot be started. The outcome may depend on how many commands were run
  before.
\<close>

datatype proc_outcome =
    Completed int string string
  | Undecodable int
  | TimeoutExpired
  | SpawnFailed

type_synonym runner = "nat \<Rightarrow> string list \<Rightarrow> proc_outcome"

record execution_result =
  res_command :: string
  res_returncode :: int
  res_stdout :: string
  res_stderr :: string

text \<open>
  Every caller in the repository passes a list of strings, on which
  \<open>_normalize_command\<close> is the identity; the \<open>shlex.split\<close> of a single string is not
  modelled.
\<close>

definition run_command :: "runner \<Rightarrow> string list \<Rightarrow> world \<Rightarrow> (error + execution_result) \<times> world" where
  "run_command proc args w =
     (let outcome = proc (length (executed w)) args;
          w = w\<lparr>executed := executed w @ [args]\<rparr>
      in case outcome of
           Completed rc out err \<Rightarrow>
             (Inr \<lparr>res_command = py_join '' '' (map shlex_quote args), res_returncode = rc,
                   res_stdout = py_strip out, res_stderr = py_strip err\<rparr>, w)
         | Undecodable rc \<Rightarrow> (Inl OutputDecodeError, w)
         | TimeoutExpired \<Rightarrow> (Inl ProcessTimeoutError, w)
         | SpawnFailed \<Rightarrow> (Inl ProcessSpawnError, w))"

text \<open>The \<open>INSERT\<close> into \<open>cloudflared_logs\<close>, whose \<open>id\<close> counts up from 1.\<close>

definition store_log :: "string \<Rightarrow> string \<Rightarrow> string \<Rightarrow> string \<Rightarrow> world \<Rightarrow> world" where
  "store_log cmd out err status w =
     w\<lparr>cloudflared_logs := cloudflared_logs w
          @ [\<lparr>log_id = Suc (length (cloudflared_logs w)), log_command = cmd,
               log_stdout = out, log_stderr = err, log_status = status\<rparr>]\<rparr>"

definition run_and_log :: "runner \<Rightarrow> string list \<Rightarrow> world \<Rightarrow> (error + execution_result) \<times> world" where
  "run_and_log proc cmd w =
     (case run_command proc cmd w of
        (Inl err, w) \<Rightarrow> (Inl err, w)
      | (Inr result, w) \<Rightarrow>
          (let status = (if res_returncode result = 0 then ''success'' else ''error'')
           in (Inr result,
               store_log (res_command result) (res_stdout result) (res_stderr result)
                 status w)))"





section \<open>Specification-side definitions\<close>

text \<open>
  The host list as the specification words it: lowercased, trimmed (an entry that is
  blank is no host), and deduplicated keeping the first occurrence.
\<close>

fun first_seen :: "string list \<Rightarrow> string list" where
  "first_seen [] = []"
| "first_seen (x # xs) = x # first_seen (filter (\<lambda>y. y \<noteq> x) xs)"

definition spec_resolved_hosts :: "string list \<Rightarrow> string list" where
  "spec_resolved_hosts hosts =
     first_seen (filter (\<lambda>h. h \<noteq> []) (map (\<lambda>h. py_strip (py_lower h)) hosts))"

text \<open>
  The record a lookup finds: the first result of the reply; an empty object counts as
  none.
\<close>

fun found_record :: "reply \<Rightarrow> (string \<times> string) list option" where
  "found_record (Raised msg) = None"
| "found_record (Reply ok data) =
     (case d_result data of [] \<Rightarrow> None | r # _ \<Rightarrow> if r = [] then None else Some r)"

text \<open>
  The id of a record as the specification means it: the value of the record's field
  \<open>id\<close>. A record with no such field has the id \<open>None\<close>, which is what the provider is
  then asked to update.
\<close>

definition spec_record_id :: "(string \<times> string) list \<Rightarrow> string" where
  "spec_record_id r =
     (case find (\<lambda>field. fst field = ''id'') r of
        Some field \<Rightarrow> snd field
      | None \<Rightarrow> ''None'')"

text \<open>
  The exchanges of one run as the specification words them, for the hosts in order:
  a lookup of the A record by exact name asking for one result, then an update of the
  found record's id or a create, with the address and a TTL of 120; the result pairs the
  host with the action.
\<close>

fun spec_upserts ::
  "string \<Rightarrow> string \<Rightarrow> string list \<Rightarrow> (request \<times> reply) list \<Rightarrow> (string \<times> string) list \<Rightarrow> bool" where
  "spec_upserts zone ip [] tr res = (tr = [] \<and> res = [])"
| "spec_upserts zone ip (h # hs) ((q1, r1) # (q2, r2) # tr) ((h', a) # res) =
     (h' = h
      \<and> req_method q1 = GET
      \<and> req_url q1 = API_BASE_URL @ ''/zones/'' @ zone @ ''/dns_records''
      \<and> req_params q1 = Some \<lparr>q_type = ''A'', q_name = h, q_page = 1, q_per_page = 1\<rparr>
      \<and> (case found_record r1 of
            Some r \<Rightarrow> a = ''updated'' \<and> req_method q2 = PUT
                      \<and> req_url q2 = API_BASE_URL @ ''/zones/'' @ zone @ ''/dns_records/''
                                       @ spec_record_id r
          | None \<Rightarrow> a = ''created'' \<and> req_method q2 = POST
                    \<and> req_url q2 = API_BASE_URL @ ''/zones/'' @ zone @ ''/dns_records'')
      \<and> (case req_json q2 of
            None \<Rightarrow> False
          | Some pl \<Rightarrow> p_type pl = ''A'' \<and> p_name pl = h \<and> p_content pl = ip \<and> p_ttl pl = 120)
      \<and> spec_upserts zone ip hs tr res)"
| "spec_upserts zone ip hs tr res = False"



fun is_returned :: "proc_outcome \<Rightarrow> bool" where
  "is_returned (Completed rc out err) = True"
| "is_returned (Undecodable rc) = False"
| "is_returned TimeoutExpired = False"
| "is_returned SpawnFailed = False"


text \<open>
  The label that 24 draws give from a position of the random source, and the labels one
  call of \<open>create_alias\<close> can try, in order: the supplied label when it normalizes to
  something, else a generated one, and then five fresh ones.
\<close>

definition label_at :: "environment \<Rightarrow> nat \<Rightarrow> string" where
  "label_at e pos =
     map (\<lambda>i. RANDOM_ALPHABET ! (choice_at e i mod length RANDOM_ALPHABET)) [pos ..< pos + 24]"

definition candidates :: "environment \<Rightarrow> string option \<Rightarrow> world \<Rightarrow> string list" where
  "candidates e masked_subdomain w =
     (let supplied = (if py_truthy masked_subdomain then normalize_subdomain masked_subdomain
                      else [])
      in if supplied = []
         then map (\<lambda>j. label_at e (choices_drawn w + 24 * j)) [0 ..< 6]
         else supplied # map (\<lambda>j. label_at e (choices_drawn w + 24 * j)) [0 ..< 5])"


text \<open>
  The hosts the host-list setting lists, read the way \<open>_sync_ssl_hosts\<close> reads it, and
  what an entry of that list looks like: not empty, no comma, trimmed, lower case.
\<close>

definition listed_hosts :: "environment \<Rightarrow> world \<Rightarrow> string set" where
  "listed_hosts e w = current_ssl_hosts (or_empty (get_settings e w ''ssl_hosts''))"

definition host_entry :: "string \<Rightarrow> bool" where
  "host_entry h = (h \<noteq> [] \<and> CHR '','' \<notin> set h \<and> py_strip h = h \<and> py_lower h = h)"

text \<open>
  The last part of \<open>create_alias\<close>, from the new identifier to the decorated row, as a
  function of the label chosen.
\<close>

definition persist_alias ::
  "environment \<Rightarrow> string \<Rightarrow> string \<Rightarrow> string \<Rightarrow> world \<Rightarrow> (error + alias_view option) \<times> world" where
  "persist_alias e base real_subdomain masked w =
     (let alias_id = uuid_at e (uuids_drawn w);
          w = w\<lparr>uuids_drawn := uuids_drawn w + 1\<rparr>
      in case insert_alias
                \<lparr>row_id = alias_id, row_base_domain = base,
                 row_subdomain = real_subdomain, row_masked_subdomain = masked,
                 row_created_at = clock w\<rparr> w of
           Inl err \<Rightarrow> (Inl err, w)
         | Inr w \<Rightarrow>
             (let w = sync_ssl_hosts e
                        [join_host real_subdomain base, join_host masked base] w
              in (Inr (decorate_alias_row (fetch_alias_by_id w alias_id)), w)))"


section \<open>Concrete stores, configurations, providers and runners\<close>

text \<open>
  The store right after the schema is created, a source of randomness that always draws
  the first choice, and a
  store whose host-list setting was saved once.
\<close>

definition empty_world :: world where
  "empty_world =
     \<lparr>domain_aliases = [], app_settings = (\<lambda>k. None), cloudflared_logs = [], executed = [],
      choices_drawn = 0, uuids_drawn = 0, clock = 0\<rparr>"

definition plain_environment :: environment where
  "plain_environment = \<lparr>choice_at = (\<lambda>i. 0), uuid_at = (\<lambda>i. replicate (Suc i) CHR ''0''),
     server_public_ip = []\<rparr>"

definition settings_world :: world where
  "settings_world = update_settings [(''ssl_hosts'', ''a.example.com'')] empty_world"

text \<open>
  A provider that keeps the zone's records in a list: a lookup returns at most one
  record of the name asked, a create appends a record, an update rewrites the record
  whose id ends the URL.
\<close>

definition url_tail :: "string \<Rightarrow> string" where
  "url_tail u = rev (takeWhile (\<lambda>c. c \<noteq> CHR ''/'') (rev u))"

definition memory_zone :: "(string \<times> string) list list provider" where
  "memory_zone recs req =
     (case req_method req of
        GET \<Rightarrow>
          (Reply True
             \<lparr>d_success = True,
              d_result = take 1 (filter (\<lambda>r. map_of r ''name'' = map_option q_name (req_params req)) recs),
              d_errors = []\<rparr>, recs)
      | POST \<Rightarrow>
          (case req_json req of
             None \<Rightarrow> (Reply False \<lparr>d_success = False, d_result = [], d_errors = [(''9207'', ''no body'')]\<rparr>, recs)
           | Some pl \<Rightarrow>
               (Reply True \<lparr>d_success = True, d_result = [], d_errors = []\<rparr>,
                recs @ [[(''id'', ''id-'' @ p_name pl), (''name'', p_name pl), (''content'', p_content pl)]]))
      | PUT \<Rightarrow>
          (case req_json req of
             None \<Rightarrow> (Reply False \<lparr>d_success = False, d_result = [], d_errors = [(''9207'', ''no body'')]\<rparr>, recs)
           | Some pl \<Rightarrow>
               (Reply True \<lparr>d_success = True, d_result = [], d_errors = []\<rparr>,
                map (\<lambda>r. if map_of r ''id'' = Some (url_tail (req_url req))
                          then [(''id'', url_tail (req_url req)), (''name'', p_name pl), (''content'', p_content pl)]
                          else r) recs)))"

text \<open>
  A configuration with a bearer token and a zone, and one with an email address only
  (no key, no token, no zone).
\<close>

definition token_config :: cloudflare_config where
  "token_config =
     \<lparr>account_id = None, api_token = Some ''token'', auth_email = None, auth_key = None,
      zone_id = Some ''z1'', CLOUDFLARE_SSL_HOSTS = Some ''b.example.com''\<rparr>"

definition email_only_config :: cloudflare_config where
  "email_only_config =
     \<lparr>account_id = None, api_token = None, auth_email = Some ''ops@example.com'',
      auth_key = None, zone_id = None, CLOUDFLARE_SSL_HOSTS = None\<rparr>"




definition example_alias :: alias_view where
  "example_alias =
     \<lparr>row_id = ''0'', row_base_domain = ''example.com'', row_subdomain = ''login-page'',
      row_masked_subdomain = ''aaaaaaaaaaaaaaaaaaaaaaaa'', row_created_at = 0,
      target_host = ''login-page.example.com'',
      masked_host = ''aaaaaaaaaaaaaaaaaaaaaaaa.example.com'',
      target_url = ''https://login-page.example.com'',
      masked_url = ''https://aaaaaaaaaaaaaaaaaaaaaaaa.example.com''\<rparr>"

definition listed_world :: world where
  "listed_world = update_settings
     [(''ssl_hosts'', ''Login-Page.example.com,aaaaaaaaaaaaaaaaaaaaaaaa.example.com'')]
     empty_world"


section \<open>Properties of the string operations\<close>

lemma of_char_lower: "py_isupper c \<Longrightarrow> (of_char (py_lower_char c) :: nat) = of_char c + 32"
  apply (cases c)
  apply (simp add: py_lower_char_def py_isupper_def Let_def)
  apply (auto simp: of_bool_def split: if_splits)
  done

lemma not_isupper_lower_char: "\<not> py_isupper (py_lower_char c)"
proof (cases "py_isupper c")
  case True
  have "(of_char (py_lower_char c) :: nat) = of_char c + 32"
    using True by (rule of_char_lower)
  moreover have "(of_char c :: nat) < 256" by simp
  ultimately show ?thesis
    using True unfolding py_isupper_def Let_def by arith
next
  case False
  then show ?thesis by (simp add: py_lower_char_def)
qed

lemma isspace_lower_char: "py_isspace (py_lower_char c) = py_isspace c"
proof (cases "py_isupper c")
  case True
  have "(of_char (py_lower_char c) :: nat) = of_char c + 32"
    using True by (rule of_char_lower)
  then show ?thesis
    using True unfolding py_isupper_def py_isspace_def Let_def by arith
next
  case False
  then show ?thesis by (simp add: py_lower_char_def)
qed

lemma py_lower_id: "\<forall>c\<in>set s. \<not> py_isupper c \<Longrightarrow> py_lower s = s"
  by (induction s) (simp_all add: py_lower_def py_lower_char_def)

lemma py_lower_no_upper: "\<forall>c\<in>set (py_lower s). \<not> py_isupper c"
  by (simp add: py_lower_def not_isupper_lower_char)

lemma py_lower_idem: "py_lower (py_lower s) = py_lower s"
  by (rule py_lower_id) (rule py_lower_no_upper)

lemma set_py_strip: "set (py_strip s) \<subseteq> set s"
proof -
  have "set (py_rstrip t) \<subseteq> set t" for t
    using set_dropWhileD [of _ py_isspace "rev t"] by (auto simp: py_rstrip_def)
  moreover have "set (py_lstrip s) \<subseteq> set s"
    using set_dropWhileD [of _ py_isspace s] by (auto simp: py_lstrip_def)
  ultimately show ?thesis unfolding py_strip_def by blast
qed

lemma dropWhile_none: "\<forall>c\<in>set t. \<not> P c \<Longrightarrow> dropWhile P t = t"
  by (cases t) simp_all

lemma py_strip_id: "\<forall>c\<in>set s. \<not> py_isspace c \<Longrightarrow> py_strip s = s"
  by (simp add: py_strip_def py_lstrip_def py_rstrip_def dropWhile_none)

lemma py_lower_strip: "py_lower (py_strip s) = py_strip (py_lower s)"
proof -
  have c: "py_isspace \<circ> py_lower_char = py_isspace"
    by (rule ext) (simp add: isspace_lower_char)
  show ?thesis
    by (simp add: py_strip_def py_lstrip_def py_rstrip_def py_lower_def dropWhile_map rev_map c)
qed

lemma subdomain_char_plain:
  "subdomain_char c \<Longrightarrow> \<not> py_isspace c \<and> \<not> py_isupper c \<and> c \<noteq> CHR '' ''"
  unfolding subdomain_char_def RANDOM_ALPHABET_def py_isspace_def py_isupper_def Let_def
  by auto

lemma normalize_subdomain_chars: "\<forall>c\<in>set (normalize_subdomain v). subdomain_char c"
  by (simp add: normalize_subdomain_def SUBDOMAIN_SANITIZER_sub_def Let_def)

lemma normalize_subdomain_fixed:
  assumes "\<forall>c\<in>set s. subdomain_char c"
  shows "normalize_subdomain (Some s) = s"
proof -
  have sp: "py_strip s = s" using assms subdomain_char_plain by (intro py_strip_id) blast
  have lo: "py_lower s = s" using assms subdomain_char_plain by (intro py_lower_id) blast
  have rp: "map (\<lambda>c. if c = CHR '' '' then CHR ''-'' else c) s = s"
    using assms subdomain_char_plain by (intro map_idI) auto
  have fl: "filter subdomain_char s = s" using assms by simp
  show ?thesis
    by (simp add: normalize_subdomain_def SUBDOMAIN_SANITIZER_sub_def Let_def sp lo rp fl)
qed

lemma SCHEME_PREFIX_sub_set: "set (SCHEME_PREFIX_sub s) \<subseteq> set s"
  by (auto simp: SCHEME_PREFIX_sub_def dest: in_set_dropD)

lemma normalize_domain_set: "set (normalize_domain v) \<subseteq> set (py_lower (py_strip v))"
  using SCHEME_PREFIX_sub_set [of "py_lower (py_strip v)"]
  by (auto simp: normalize_domain_def Let_def dest: set_takeWhileD)

lemma normalize_domain_no_slash: "CHR ''/'' \<notin> set (normalize_domain v)"
  by (auto simp: normalize_domain_def Let_def dest: set_takeWhileD)

lemma SCHEME_PREFIX_sub_no_slash:
  assumes "CHR ''/'' \<notin> set s" and "py_lower s = s"
  shows "SCHEME_PREFIX_sub s = s"
proof -
  have t: "py_lower (take n s) = take n s" for n
    using assms(2) by (metis py_lower_def take_map)
  have "take n s \<noteq> t" if "CHR ''/'' \<in> set t" for n t
    using that assms(1) by (metis in_set_takeD)
  then have "take 8 s \<noteq> ''https://''" and "take 7 s \<noteq> ''http://''" by simp_all
  then show ?thesis by (simp add: SCHEME_PREFIX_sub_def t)
qed

lemma normalize_domain_twice: "normalize_domain (normalize_domain v) = py_strip (normalize_domain v)"
proof -
  let ?y = "normalize_domain v"
  have lo: "py_lower ?y = ?y"
    using normalize_domain_set [of v] py_lower_no_upper [of "py_strip v"]
    by (intro py_lower_id) blast
  have ns: "CHR ''/'' \<notin> set (py_strip ?y)"
    using normalize_domain_no_slash [of v] set_py_strip [of ?y] by blast
  have c: "py_lower (py_strip ?y) = py_strip ?y"
    by (simp add: py_lower_strip lo)
  have "SCHEME_PREFIX_sub (py_strip ?y) = py_strip ?y"
    using ns c by (rule SCHEME_PREFIX_sub_no_slash)
  then show ?thesis
    using ns by (simp add: normalize_domain_def [of ?y] Let_def c)
qed

lemmas py_string_defs =
  py_lower_def py_lower_char_def py_isupper_def py_strip_def py_lstrip_def py_rstrip_def
  py_isspace_def

lemmas normalize_defs =
  normalize_domain_def normalize_subdomain_def SCHEME_PREFIX_sub_def
  SUBDOMAIN_SANITIZER_sub_def subdomain_char_def RANDOM_ALPHABET_def Let_def

section \<open>Properties of the DNS synchronizer\<close>

lemma py_lower_Nil_iff: "py_lower s = [] \<longleftrightarrow> s = []"
  by (simp add: py_lower_def)

lemma cleaned_loop_eq:
  "cleaned_loop hosts cleaned =
     cleaned @ filter (\<lambda>h. h \<noteq> []) (map (\<lambda>h. py_strip (py_lower h)) hosts)"
  by (induction hosts arbitrary: cleaned)
     (simp_all add: Let_def py_lower_strip [symmetric] py_lower_Nil_iff)

lemma deduped_loop_eq:
  "deduped_loop hosts deduped seen =
     deduped @ first_seen (filter (\<lambda>h. h \<notin> seen) hosts)"
proof (induction hosts arbitrary: deduped seen)
  case Nil
  then show ?case by simp
next
  case (Cons h hs)
  show ?case
  proof (cases "h \<in> seen")
    case True
    then show ?thesis using Cons by simp
  next
    case False
    have "filter (\<lambda>y. y \<noteq> h) (filter (\<lambda>y. y \<notin> seen) hs) = filter (\<lambda>y. y \<notin> insert h seen) hs"
      by (induction hs) auto
    then show ?thesis using False Cons by simp
  qed
qed

lemma determine_hosts_spec:
  "determine_hosts cfg (Some hosts) = spec_resolved_hosts hosts"
  by (simp add: determine_hosts_def spec_resolved_hosts_def cleaned_loop_eq deduped_loop_eq)

lemma request'_cases:
  assumes "request' cfg prov m path params js st = (r, st')"
  shows "(\<exists>err. build_headers cfg = Inl err \<and> r = Inl err \<and> st' = st)
     \<or> (\<exists>hs rep. build_headers cfg = Inr hs
           \<and> snd st' = snd st @ [(\<lparr>req_method = m, req_url = API_BASE_URL @ path,
                  req_headers = hs, req_params = params, req_json = js\<rparr>, rep)]
           \<and> (case r of Inl err \<Rightarrow> True | Inr data \<Rightarrow> \<exists>ok. rep = Reply ok data))"
  using assms
  by (auto simp: request'_def Let_def split: sum.splits reply.splits if_splits)

lemma find_dns_record_cases:
  assumes "find_dns_record cfg prov zone host st = (r, st')"
  shows "(\<exists>err. r = Inl err \<and> (st' = st \<or> (\<exists>x. snd st' = snd st @ [x] \<and> req_json (fst x) = None)))
     \<or> (\<exists>hs rep. build_headers cfg = Inr hs
           \<and> snd st' = snd st @ [(\<lparr>req_method = GET,
                  req_url = API_BASE_URL @ ''/zones/'' @ zone @ ''/dns_records'',
                  req_headers = hs,
                  req_params = Some \<lparr>q_type = ''A'', q_name = host, q_page = 1, q_per_page = 1\<rparr>,
                  req_json = None\<rparr>, rep)]
           \<and> (\<exists>existing. r = Inr existing \<and> dict_truthy existing = (found_record rep \<noteq> None)
                 \<and> (dict_truthy existing \<longrightarrow> found_record rep = existing)))"
proof -
  obtain r1 st1 where 1: "request' cfg prov GET (''/zones/'' @ zone @ ''/dns_records'')
      (Some \<lparr>q_type = ''A'', q_name = host, q_page = 1, q_per_page = 1\<rparr>) None st = (r1, st1)"
    by (rule prod.exhaust)
  from request'_cases [OF 1] show ?thesis
  proof
    assume "\<exists>err. build_headers cfg = Inl err \<and> r1 = Inl err \<and> st1 = st"
    then show ?thesis using assms 1 by (auto simp: find_dns_record_def)
  next
    assume "\<exists>hs rep. build_headers cfg = Inr hs
           \<and> snd st1 = snd st @ [(\<lparr>req_method = GET,
                  req_url = API_BASE_URL @ (''/zones/'' @ zone @ ''/dns_records''),
                  req_headers = hs,
                  req_params = Some \<lparr>q_type = ''A'', q_name = host, q_page = 1, q_per_page = 1\<rparr>,
                  req_json = None\<rparr>, rep)]
           \<and> (case r1 of Inl err \<Rightarrow> True | Inr data \<Rightarrow> \<exists>ok. rep = Reply ok data)"
    then obtain hs rep where h: "build_headers cfg = Inr hs"
      "snd st1 = snd st @ [(\<lparr>req_method = GET,
                  req_url = API_BASE_URL @ (''/zones/'' @ zone @ ''/dns_records''),
                  req_headers = hs,
                  req_params = Some \<lparr>q_type = ''A'', q_name = host, q_page = 1, q_per_page = 1\<rparr>,
                  req_json = None\<rparr>, rep)]"
      "case r1 of Inl err \<Rightarrow> True | Inr data \<Rightarrow> \<exists>ok. rep = Reply ok data"
      by blast
    show ?thesis
    proof (cases r1)
      case (Inl err)
      then show ?thesis using assms 1 h by (auto simp: find_dns_record_def)
    next
      case (Inr data)
      then obtain ok where "rep = Reply ok data" using h(3) by auto
      then show ?thesis using assms 1 h Inr
        by (auto simp: find_dns_record_def split: list.splits)
    qed
  qed
qed




lemma record_id_of_spec: "record_id_of r = spec_record_id r"
proof -
  have "map_of r k = map_option snd (find (\<lambda>field. fst field = k) r)" for k
    by (induction r) auto
  then show ?thesis
    by (simp add: record_id_of_def spec_record_id_def split: option.splits)
qed

lemma sync_loop_spec:
  assumes "sync_loop cfg prov zone ip 120 px hosts results st = (Inr out, st')"
  shows "\<exists>new res. snd st' = snd st @ new \<and> out = results @ res \<and> spec_upserts zone ip hosts new res"
  using assms
proof (induction hosts arbitrary: results st)
  case Nil
  then show ?case by auto
next
  case (Cons host hosts)
  let ?pl = "\<lparr>p_type = ''A'', p_name = host, p_content = ip, p_ttl = 120, p_proxied = px\<rparr>"
  obtain r1 st1 where 1: "find_dns_record cfg prov zone host st = (r1, st1)"
    by (rule prod.exhaust)
  have "\<exists>existing. r1 = Inr existing" using Cons.prems 1 by (cases r1) simp_all
  then obtain existing where r1: "r1 = Inr existing" by blast
  from find_dns_record_cases [OF 1] r1 obtain hs rep where
    f: "snd st1 = snd st @ [(\<lparr>req_method = GET,
                  req_url = API_BASE_URL @ ''/zones/'' @ zone @ ''/dns_records'',
                  req_headers = hs,
                  req_params = Some \<lparr>q_type = ''A'', q_name = host, q_page = 1, q_per_page = 1\<rparr>,
                  req_json = None\<rparr>, rep)]"
       "dict_truthy existing = (found_record rep \<noteq> None)"
       "dict_truthy existing \<longrightarrow> found_record rep = existing"
    by auto
  let ?m = "if dict_truthy existing then PUT else POST"
  let ?path = "if dict_truthy existing
       then ''/zones/'' @ zone @ ''/dns_records/''
              @ record_id_of (case existing of Some d \<Rightarrow> d | None \<Rightarrow> [])
       else ''/zones/'' @ zone @ ''/dns_records''"
  let ?a = "if dict_truthy existing then ''updated'' else ''created''"
  obtain r2 st2 where 2: "request' cfg prov ?m ?path None (Some ?pl) st1 = (r2, st2)"
    by (rule prod.exhaust)
  have "\<exists>data. r2 = Inr data" using Cons.prems 1 2 r1 by (cases r2) (simp_all split: if_splits)
  then obtain data where r2: "r2 = Inr data" by blast
  from request'_cases [OF 2] r2 obtain hs2 rep2 where
    g: "snd st2 = snd st1 @ [(\<lparr>req_method = ?m, req_url = API_BASE_URL @ ?path,
                  req_headers = hs2, req_params = None, req_json = Some ?pl\<rparr>, rep2)]"
    by auto
  have "sync_loop cfg prov zone ip 120 px hosts (results @ [(host, ?a)]) st2 = (Inr out, st')"
    using Cons.prems 1 2 r1 r2 by (simp split: if_splits)
  from Cons.IH [OF this] obtain new res where
    ih: "snd st' = snd st2 @ new" "out = (results @ [(host, ?a)]) @ res"
        "spec_upserts zone ip hosts new res"
    by blast
  let ?q1 = "(\<lparr>req_method = GET,
                  req_url = API_BASE_URL @ ''/zones/'' @ zone @ ''/dns_records'',
                  req_headers = hs,
                  req_params = Some \<lparr>q_type = ''A'', q_name = host, q_page = 1, q_per_page = 1\<rparr>,
                  req_json = None\<rparr>, rep)"
  let ?q2 = "(\<lparr>req_method = ?m, req_url = API_BASE_URL @ ?path,
                  req_headers = hs2, req_params = None, req_json = Some ?pl\<rparr>, rep2)"
  have tr: "snd st' = snd st @ (?q1 # ?q2 # new)" using ih(1) f(1) g by simp
  have rs: "out = results @ ((host, ?a) # res)" using ih(2) by simp
  have sp: "spec_upserts zone ip (host # hosts) (?q1 # ?q2 # new) ((host, ?a) # res)"
  proof (cases "dict_truthy existing")
    case True
    then obtain d where "existing = Some d" by (cases existing) simp_all
    then show ?thesis using True f ih(3) by (simp add: record_id_of_spec)
  next
    case False
    then show ?thesis using f ih(3) by simp
  qed
  show ?case using tr rs sp by blast
qed

section \<open>Properties of the tunnel commands\<close>


lemma run_and_log_not_completed:
  assumes "\<not> is_returned (proc (length (executed w)) cmd)"
  shows "\<exists>err. run_and_log proc cmd w = (Inl err, w\<lparr>executed := executed w @ [cmd]\<rparr>)"
  using assms
  by (cases "proc (length (executed w)) cmd")
     (simp_all add: run_and_log_def run_command_def Let_def)



lemmas dns_defs =
  sync_a_records_def require_zone_id_def determine_hosts_def find_dns_record_def
  request'_def build_headers_def proxied_value_def record_id_of_def API_BASE_URL_def
  memory_zone_def url_tail_def token_config_def ssl_hosts_def Let_def

section \<open>Properties of the alias registry\<close>

lemma generate_24:
  "generate_masked_subdomain e 24 w
     = (label_at e (choices_drawn w), w\<lparr>choices_drawn := choices_drawn w + 24\<rparr>)"
  by (simp add: generate_masked_subdomain_def label_at_def Let_def)

lemma length_label_at: "length (label_at e pos) = 24"
  by (simp add: label_at_def)

lemma set_label_at: "set (label_at e pos) \<subseteq> set RANDOM_ALPHABET"
proof -
  have "0 < length RANDOM_ALPHABET" by (simp add: RANDOM_ALPHABET_def)
  then have "RANDOM_ALPHABET ! (n mod length RANDOM_ALPHABET) \<in> set RANDOM_ALPHABET" for n
    by (intro nth_mem) simp
  then show ?thesis by (auto simp: label_at_def)
qed

lemma masked_exists_choices [simp]:
  "masked_exists (w\<lparr>choices_drawn := n\<rparr>) base masked = masked_exists w base masked"
  by (simp add: masked_exists_def)

lemma map_upt_shift:
  "map f [0 ..< Suc n] = f 0 # map (\<lambda>j. f (Suc j)) [0 ..< n]"
  by (simp add: upt_conv_Cons map_Suc_upt [symmetric] del: upt_Suc)

lemma regenerate_masked_find:
  assumes "attempts \<le> 5"
  shows "\<exists>k. snd (regenerate_masked e base masked attempts w) = w\<lparr>choices_drawn := k\<rparr>
     \<and> (case find (\<lambda>c. \<not> masked_exists w base c)
               (masked # map (\<lambda>j. label_at e (choices_drawn w + 24 * j)) [0 ..< 5 - attempts]) of
          Some c \<Rightarrow> fst (regenerate_masked e base masked attempts w) = c
        | None \<Rightarrow> masked_exists w base (fst (regenerate_masked e base masked attempts w)))"
  using assms
proof (induction e base masked attempts w rule: regenerate_masked.induct)
  case (1 e base masked attempts w)
  show ?case
  proof (cases "masked_exists w base masked \<and> attempts < 5")
    case False
    have "w = w\<lparr>choices_drawn := choices_drawn w\<rparr>" by simp
    moreover have "regenerate_masked e base masked attempts w = (masked, w)"
      using False by (subst regenerate_masked.simps) auto
    ultimately show ?thesis using False "1.prems"
      by (cases "masked_exists w base masked") (auto intro: exI [of _ "choices_drawn w"])
  next
    case True
    let ?w1 = "w\<lparr>choices_drawn := choices_drawn w + 24\<rparr>"
    let ?m1 = "label_at e (choices_drawn w)"
    have s: "regenerate_masked e base masked attempts w
        = regenerate_masked e base ?m1 (attempts + 1) ?w1"
      using True by (subst regenerate_masked.simps) (simp add: generate_24)
    have "attempts + 1 \<le> 5" using True by simp
    from "1.IH" [OF True this] have "\<exists>k. snd (regenerate_masked e base ?m1 (attempts + 1) ?w1) = ?w1\<lparr>choices_drawn := k\<rparr>
      \<and> (case find (\<lambda>c. \<not> masked_exists ?w1 base c)
               (?m1 # map (\<lambda>j. label_at e (choices_drawn ?w1 + 24 * j)) [0 ..< 5 - (attempts + 1)]) of
          Some c \<Rightarrow> fst (regenerate_masked e base ?m1 (attempts + 1) ?w1) = c
        | None \<Rightarrow> masked_exists ?w1 base (fst (regenerate_masked e base ?m1 (attempts + 1) ?w1)))"
      unfolding generate_24 fst_conv snd_conv .
    then obtain k where
      ih: "snd (regenerate_masked e base ?m1 (attempts + 1) ?w1) = ?w1\<lparr>choices_drawn := k\<rparr>"
        "case find (\<lambda>c. \<not> masked_exists ?w1 base c)
               (?m1 # map (\<lambda>j. label_at e (choices_drawn ?w1 + 24 * j)) [0 ..< 5 - (attempts + 1)]) of
          Some c \<Rightarrow> fst (regenerate_masked e base ?m1 (attempts + 1) ?w1) = c
        | None \<Rightarrow> masked_exists ?w1 base (fst (regenerate_masked e base ?m1 (attempts + 1) ?w1))"
      by blast
    have me: "masked_exists ?w1 = masked_exists w"
      by (intro ext) simp
    obtain n where n: "5 - attempts = Suc n" using True by (cases "5 - attempts") auto
    then have n': "5 - (attempts + 1) = n" by simp
    have l: "map (\<lambda>j. label_at e (choices_drawn w + 24 * j)) [0 ..< 5 - attempts]
        = ?m1 # map (\<lambda>j. label_at e (choices_drawn ?w1 + 24 * j)) [0 ..< 5 - (attempts + 1)]"
      unfolding n n' by (simp add: map_upt_shift add.commute add.left_commute del: upt_Suc)
    have w1k: "?w1\<lparr>choices_drawn := k\<rparr> = w\<lparr>choices_drawn := k\<rparr>" by simp
    have f: "find (\<lambda>c. \<not> masked_exists w base c) (masked # xs)
        = find (\<lambda>c. \<not> masked_exists w base c) xs" for xs
      using True by simp
    show ?thesis
      unfolding s l f using ih unfolding me w1k by blast
  qed
qed

lemma py_split_not_Nil: "py_split sep s \<noteq> []"
  by (induction s) (auto split: list.splits)

lemma py_split_no_sep: "p \<in> set (py_split sep s) \<Longrightarrow> sep \<notin> set p"
proof (induction s arbitrary: p)
  case Nil
  then show ?case by simp
next
  case (Cons c cs)
  show ?case
  proof (cases "c = sep")
    case True
    then show ?thesis using Cons by auto
  next
    case False
    obtain w ws where w: "py_split sep cs = w # ws"
      using py_split_not_Nil [of sep cs] by (cases "py_split sep cs") auto
    then have "p = c # w \<or> p \<in> set ws" using Cons.prems False by simp
    then show ?thesis using Cons.IH [of w] Cons.IH [of p] w False by auto
  qed
qed

lemma py_split_free: "sep \<notin> set x \<Longrightarrow> py_split sep x = [x]"
  by (induction x) auto

lemma py_split_append: "sep \<notin> set x \<Longrightarrow> py_split sep (x @ sep # rest) = x # py_split sep rest"
  by (induction x) auto

lemma py_split_join_tail:
  assumes "\<forall>x\<in>set (y # ys). CHR '','' \<notin> set x"
  shows "py_split CHR '','' (CHR '' '' # py_join '', '' (y # ys)) = map (\<lambda>z. CHR '' '' # z) (y # ys)"
  using assms
proof (induction ys arbitrary: y)
  case Nil
  then show ?case using py_split_free [of "CHR '',''" "CHR '' '' # y"] by simp
next
  case (Cons z zs)
  have "py_split CHR '','' ((CHR '' '' # y) @ CHR '','' # (CHR '' '' # py_join '', '' (z # zs)))
      = (CHR '' '' # y) # py_split CHR '','' (CHR '' '' # py_join '', '' (z # zs))"
    using Cons.prems by (intro py_split_append) simp
  then show ?case using Cons.IH [of z] Cons.prems by simp
qed

lemma py_split_join:
  assumes "\<forall>x\<in>set xs. CHR '','' \<notin> set x"
  shows "py_split CHR '','' (py_join '', '' xs)
     = (case xs of [] \<Rightarrow> [[]] | x # rest \<Rightarrow> x # map (\<lambda>z. CHR '' '' # z) rest)"
proof (cases xs)
  case Nil
  then show ?thesis by simp
next
  case (Cons x rest)
  show ?thesis
  proof (cases rest)
    case Nil
    then show ?thesis using Cons assms py_split_free [of "CHR '',''" x] by simp
  next
    case (Cons y ys)
    have "py_split CHR '','' (x @ CHR '','' # (CHR '' '' # py_join '', '' (y # ys)))
        = x # py_split CHR '','' (CHR '' '' # py_join '', '' (y # ys))"
      using assms \<open>xs = x # rest\<close> by (intro py_split_append) simp
    then show ?thesis
      using py_split_join_tail [of y ys] assms \<open>xs = x # rest\<close> Cons by simp
  qed
qed

lemma py_strip_space_Cons: "py_strip (CHR '' '' # h) = py_strip h"
  by (simp add: py_strip_def py_lstrip_def py_isspace_def)

lemma py_strip_idem: "py_strip (py_strip s) = py_strip s"
proof -
  let ?t = "dropWhile py_isspace s"
  let ?u = "rev (dropWhile py_isspace (rev ?t))"
  have pre: "?t = ?u @ rev (takeWhile py_isspace (rev ?t))"
    using takeWhile_dropWhile_id [of py_isspace "rev ?t"] by (metis rev_append rev_rev_ident)
  have l: "dropWhile py_isspace ?u = ?u"
  proof (cases "?u = []")
    case True
    then show ?thesis by (metis dropWhile.simps(1))
  next
    case False
    then have "?t \<noteq> []" by (metis dropWhile.simps(1) rev.simps(1))
    then have "\<not> py_isspace (hd ?t)" by (rule hd_dropWhile)
    moreover have "hd ?t = hd ?u" using pre False by (metis hd_append2)
    ultimately have "\<not> py_isspace (hd ?u)" by simp
    then show ?thesis by (rule dropWhile_eq_self_iff [THEN iffD2, OF disjI2])
  qed
  have "rev (dropWhile py_isspace (rev (dropWhile py_isspace ?u))) = ?u"
    unfolding l by simp
  then show ?thesis by (simp add: py_strip_def py_lstrip_def py_rstrip_def)
qed

lemma py_strip_Nil_iff: "py_strip s = [] \<longleftrightarrow> (\<forall>c\<in>set s. py_isspace c)"
proof
  assume "py_strip s = []"
  then have "dropWhile py_isspace (rev (dropWhile py_isspace s)) = []"
    by (simp add: py_strip_def py_lstrip_def py_rstrip_def)
  then have "\<forall>c\<in>set (dropWhile py_isspace s). py_isspace c"
    by (simp add: dropWhile_eq_Nil_conv)
  then have "dropWhile py_isspace s = []"
    using hd_dropWhile [of py_isspace s] by (metis hd_in_set)
  then show "\<forall>c\<in>set s. py_isspace c" by (simp add: dropWhile_eq_Nil_conv)
next
  assume "\<forall>c\<in>set s. py_isspace c"
  then have "dropWhile py_isspace s = []" by (metis dropWhile_eq_Nil_conv)
  then show "py_strip s = []"
    by (simp only: py_strip_def py_lstrip_def py_rstrip_def dropWhile.simps rev.simps)
qed

lemma py_lower_char_comma: "py_lower_char c = CHR '','' \<longleftrightarrow> c = CHR '',''"
proof (cases "py_isupper c")
  case True
  have "(of_char (py_lower_char c) :: nat) = of_char c + 32" using True by (rule of_char_lower)
  then have "py_lower_char c \<noteq> CHR '',''" using True by (auto simp: py_isupper_def Let_def)
  moreover have "c \<noteq> CHR '',''" using True by (auto simp: py_isupper_def)
  ultimately show ?thesis by simp
next
  case False
  then show ?thesis by (simp add: py_lower_char_def)
qed

lemma comma_py_lower: "CHR '','' \<in> set (py_lower s) \<longleftrightarrow> CHR '','' \<in> set s"
proof -
  have "CHR '','' \<in> py_lower_char ` set s \<longleftrightarrow> (\<exists>c\<in>set s. py_lower_char c = CHR '','')"
    by force
  then show ?thesis by (simp add: py_lower_def py_lower_char_comma)
qed

lemma host_entry_normalized:
  assumes "CHR '','' \<notin> set h" and "py_strip h \<noteq> []"
  shows "host_entry (py_lower (py_strip h))"
proof -
  have "CHR '','' \<notin> set (py_strip h)" using assms(1) set_py_strip by blast
  then have "CHR '','' \<notin> set (py_lower (py_strip h))" by (simp add: comma_py_lower)
  moreover have "py_lower (py_strip h) \<noteq> []" using assms(2) by (simp add: py_lower_def)
  moreover have "py_strip (py_lower (py_strip h)) = py_lower (py_strip h)"
    by (simp add: py_lower_strip [symmetric] py_strip_idem)
  ultimately show ?thesis by (simp add: host_entry_def py_lower_idem)
qed

lemma current_ssl_hosts_entries: "x \<in> current_ssl_hosts raw \<Longrightarrow> host_entry x"
  by (auto simp: current_ssl_hosts_def intro!: host_entry_normalized dest: py_split_no_sep)

lemma finite_current_ssl_hosts: "finite (current_ssl_hosts raw)"
  by (simp add: current_ssl_hosts_def)

lemma current_ssl_hosts_join:
  assumes "\<forall>x\<in>set xs. host_entry x"
  shows "current_ssl_hosts (py_join '', '' xs) = set xs"
proof (cases xs)
  case Nil
  then show ?thesis by (simp add: current_ssl_hosts_def)
next
  case (Cons x rest)
  have nc: "\<forall>x\<in>set xs. CHR '','' \<notin> set x" using assms by (simp add: host_entry_def)
  have e: "py_lower (py_strip z) = z \<and> z \<noteq> [] \<and> py_strip z \<noteq> []" if "z \<in> set xs" for z
    using assms that by (auto simp: host_entry_def)
  have f: "py_lower (py_strip (CHR '' '' # z)) = z \<and> py_strip (CHR '' '' # z) \<noteq> []"
    if "z \<in> set xs" for z
    using e [OF that] by (simp add: py_strip_space_Cons)
  have "filter (\<lambda>item. item \<noteq> [] \<and> py_strip item \<noteq> []) (x # map (\<lambda>z. CHR '' '' # z) rest)
      = x # map (\<lambda>z. CHR '' '' # z) rest"
    using e f Cons by (auto simp: filter_id_conv)
  moreover have "map (\<lambda>item. py_lower (py_strip item)) (x # map (\<lambda>z. CHR '' '' # z) rest) = x # rest"
    using e f Cons by (auto simp: map_idI)
  ultimately show ?thesis
    using py_split_join [OF nc] Cons by (simp add: current_ssl_hosts_def)
qed

lemma current_ssl_hosts_sorted_join:
  assumes "finite S" and "\<forall>x\<in>S. host_entry x"
  shows "current_ssl_hosts (py_join '', '' (sorted_list_of_set S)) = S"
  using current_ssl_hosts_join [of "sorted_list_of_set S"] assms by simp

lemma update_settings_fields [simp]:
  "domain_aliases (update_settings us w) = domain_aliases w"
  "cloudflared_logs (update_settings us w) = cloudflared_logs w"
  by (induction us w rule: update_settings.induct) simp_all

lemma add_hosts_two:
  "add_hosts [n1, n2] (cur, False) = (insert n1 (insert n2 cur), n1 \<notin> cur \<or> n2 \<notin> cur)"
  by (auto simp: insert_absorb)

lemma sync_ssl_hosts_two:
  assumes "h1 \<noteq> []" and "h2 \<noteq> []"
  shows "sync_ssl_hosts e [h1, h2] w =
     (if py_lower (py_strip h1) \<in> listed_hosts e w \<and> py_lower (py_strip h2) \<in> listed_hosts e w
      then w
      else w\<lparr>app_settings := (app_settings w)(''ssl_hosts'' \<mapsto>
              Some (py_join '', '' (sorted_list_of_set
                (insert (py_lower (py_strip h1)) (insert (py_lower (py_strip h2))
                   (listed_hosts e w))))))\<rparr>)"
  using assms
  by (simp add: sync_ssl_hosts_def listed_hosts_def add_hosts_two Let_def del: add_hosts.simps)

lemma sync_ssl_hosts_aliases [simp]:
  "domain_aliases (sync_ssl_hosts e hosts w) = domain_aliases w"
  by (simp add: sync_ssl_hosts_def Let_def split_beta)

lemma listed_hosts_written:
  "listed_hosts e (w\<lparr>app_settings := (app_settings w)(''ssl_hosts'' \<mapsto> Some v)\<rparr>)
     = current_ssl_hosts v"
  by (simp add: listed_hosts_def get_settings_def)

lemma listed_hosts_after_sync:
  assumes "h1 \<noteq> []" and "h2 \<noteq> []"
    and "host_entry (py_lower (py_strip h1))" and "host_entry (py_lower (py_strip h2))"
  shows "listed_hosts e (sync_ssl_hosts e [h1, h2] w)
     = insert (py_lower (py_strip h1)) (insert (py_lower (py_strip h2)) (listed_hosts e w))"
proof -
  let ?S = "insert (py_lower (py_strip h1)) (insert (py_lower (py_strip h2)) (listed_hosts e w))"
  have "finite ?S" by (simp add: listed_hosts_def finite_current_ssl_hosts)
  moreover have "\<forall>x\<in>?S. host_entry x"
    using assms(3,4) current_ssl_hosts_entries by (auto simp: listed_hosts_def)
  ultimately have "current_ssl_hosts (py_join '', '' (sorted_list_of_set ?S)) = ?S"
    by (rule current_ssl_hosts_sorted_join)
  then show ?thesis
    unfolding sync_ssl_hosts_two [OF assms(1,2)]
    by (auto simp: listed_hosts_written simp del: insert_iff)
qed

lemma insert_alias_Inr:
  assumes "insert_alias r w = Inr w'"
  shows "w' = w\<lparr>domain_aliases := domain_aliases w @ [r]\<rparr>"
    and "\<forall>x\<in>set (domain_aliases w). row_id x \<noteq> row_id r"
    and "\<forall>x\<in>set (domain_aliases w). row_masked_subdomain x \<noteq> row_masked_subdomain r"
  using assms by (auto simp: insert_alias_def list_ex_iff split: if_splits)


lemma find_append_last:
  "\<forall>x\<in>set xs. \<not> P x \<Longrightarrow> P r \<Longrightarrow> find P (xs @ [r]) = Some r"
  by (induction xs) auto


lemma persist_alias_Inr:
  assumes "persist_alias e base sub masked w = (Inr a, w')"
  defines "r \<equiv> \<lparr>row_id = uuid_at e (uuids_drawn w), row_base_domain = base,
                 row_subdomain = sub, row_masked_subdomain = masked,
                 row_created_at = clock w\<rparr>"
  shows "a = decorate_alias_row (Some r)"
    and "w' = sync_ssl_hosts e [join_host sub base, join_host masked base]
               (w\<lparr>uuids_drawn := uuids_drawn w + 1, domain_aliases := domain_aliases w @ [r]\<rparr>)"
    and "\<forall>x\<in>set (domain_aliases w). row_masked_subdomain x \<noteq> masked"
proof -
  let ?w1 = "w\<lparr>uuids_drawn := uuids_drawn w + 1\<rparr>"
  obtain w2 where i: "insert_alias r ?w1 = Inr w2"
    using assms(1) by (auto simp: persist_alias_def Let_def r_def split: sum.splits)
  note ins = insert_alias_Inr [OF i]
  have w2: "w2 = w\<lparr>uuids_drawn := uuids_drawn w + 1, domain_aliases := domain_aliases w @ [r]\<rparr>"
    using ins(1) by simp
  show "w' = sync_ssl_hosts e [join_host sub base, join_host masked base]
               (w\<lparr>uuids_drawn := uuids_drawn w + 1, domain_aliases := domain_aliases w @ [r]\<rparr>)"
    using assms(1) i unfolding w2 [symmetric]
    by (auto simp: persist_alias_def Let_def r_def)
  have "fetch_alias_by_id (sync_ssl_hosts e [join_host sub base, join_host masked base] w2) (row_id r)
      = Some r"
    using ins(2) by (simp add: fetch_alias_by_id_def w2 find_append_last)
  then show "a = decorate_alias_row (Some r)"
    using assms(1) i by (auto simp: persist_alias_def Let_def r_def)
  show "\<forall>x\<in>set (domain_aliases w). row_masked_subdomain x \<noteq> masked"
    using ins(3) by (simp add: r_def)
qed

lemma regenerate_masked_cond:
  "(if masked_exists w base m then regenerate_masked e base m 0 w else (m, w))
     = regenerate_masked e base m 0 w"
proof (cases "masked_exists w base m")
  case True
  then show ?thesis by simp
next
  case False
  then have "regenerate_masked e base m 0 w = (m, w)"
    by (subst regenerate_masked.simps) simp
  then show ?thesis using False by simp
qed

lemma candidates_eq:
  "candidates e ms w =
     (if (if py_truthy ms then normalize_subdomain ms else []) = []
      then label_at e (choices_drawn w)
           # map (\<lambda>j. label_at e (choices_drawn w + 24 + 24 * j)) [0 ..< 5]
      else (if py_truthy ms then normalize_subdomain ms else [])
           # map (\<lambda>j. label_at e (choices_drawn w + 24 * j)) [0 ..< 5])"
proof -
  have "map (\<lambda>j. label_at e (choices_drawn w + 24 * j)) [0 ..< 6]
      = label_at e (choices_drawn w)
        # map (\<lambda>j. label_at e (choices_drawn w + 24 + 24 * j)) [0 ..< 5]"
    using map_upt_shift [of "\<lambda>j. label_at e (choices_drawn w + 24 * j)" 5]
    by (simp add: numeral_eq_Suc add.assoc del: upt_Suc)
  then show ?thesis by (simp add: candidates_def Let_def del: upt_Suc)
qed

lemma create_alias_cases:
  assumes "normalize_domain bd \<noteq> []"
  shows "\<exists>k. case find (\<lambda>c. \<not> masked_exists w (normalize_domain bd) c) (candidates e ms w) of
            None \<Rightarrow> create_alias e bd sd ms w
                      = (Inl AliasCollisionError, w\<lparr>choices_drawn := k\<rparr>)
          | Some m \<Rightarrow> \<not> masked_exists w (normalize_domain bd) m
                \<and> create_alias e bd sd ms w
                      = persist_alias e (normalize_domain bd) (normalize_subdomain (Some sd)) m
                          (w\<lparr>choices_drawn := k\<rparr>)"
proof -
  let ?base = "normalize_domain bd"
  let ?sup = "if py_truthy ms then normalize_subdomain ms else []"
  let ?p = "if ?sup = [] then generate_masked_subdomain e 24 w else (?sup, w)"
  let ?q = "regenerate_masked e ?base (fst ?p) 0 (snd ?p)"
  have c: "create_alias e bd sd ms w =
      (if masked_exists (snd ?q) ?base (fst ?q) then (Inl AliasCollisionError, snd ?q)
       else persist_alias e ?base (normalize_subdomain (Some sd)) (fst ?q) (snd ?q))"
    using assms
    by (simp add: create_alias_def persist_alias_def Let_def split_beta regenerate_masked_cond)
  obtain k0 where p: "snd ?p = w\<lparr>choices_drawn := k0\<rparr>"
      "fst ?p # map (\<lambda>j. label_at e (k0 + 24 * j)) [0 ..< 5] = candidates e ms w"
  proof (cases "?sup = []")
    case True
    show ?thesis
      by (rule that [of "choices_drawn w + 24"])
         (simp_all add: True generate_24 candidates_eq del: upt_Suc)
  next
    case False
    show ?thesis
      by (rule that [of "choices_drawn w"]) (simp_all add: False candidates_eq del: upt_Suc)
  qed
  from regenerate_masked_find [of 0 e ?base "fst ?p" "snd ?p"] obtain k where
    k: "snd ?q = (snd ?p)\<lparr>choices_drawn := k\<rparr>"
       "case find (\<lambda>c. \<not> masked_exists (snd ?p) ?base c)
               (fst ?p # map (\<lambda>j. label_at e (choices_drawn (snd ?p) + 24 * j)) [0 ..< 5 - 0]) of
          Some c \<Rightarrow> fst ?q = c
        | None \<Rightarrow> masked_exists (snd ?p) ?base (fst ?q)"
    by auto
  have me: "masked_exists (snd ?p) = masked_exists w" "masked_exists (snd ?q) = masked_exists w"
    unfolding k(1) unfolding p(1) by (intro ext, simp)+
  have q: "snd ?q = w\<lparr>choices_drawn := k\<rparr>" unfolding k(1) unfolding p(1) by simp
  have cd: "choices_drawn (snd ?p) = k0" unfolding p(1) by simp
  have f: "case find (\<lambda>c. \<not> masked_exists w ?base c) (candidates e ms w) of
          Some c \<Rightarrow> fst ?q = c
        | None \<Rightarrow> masked_exists w ?base (fst ?q)"
    using k(2) unfolding me cd using p(2) by simp
  show ?thesis
  proof (cases "find (\<lambda>c. \<not> masked_exists w ?base c) (candidates e ms w)")
    case None
    then have "masked_exists w ?base (fst ?q)" using f by simp
    then have "create_alias e bd sd ms w = (Inl AliasCollisionError, w\<lparr>choices_drawn := k\<rparr>)"
      unfolding c me q by simp
    then show ?thesis using None by auto
  next
    case (Some m)
    then have m: "fst ?q = m" using f by simp
    have nm: "\<not> masked_exists w ?base m" using Some by (auto dest: find_Some_iff [THEN iffD1])
    then have "create_alias e bd sd ms w
        = persist_alias e ?base (normalize_subdomain (Some sd)) m (w\<lparr>choices_drawn := k\<rparr>)"
      unfolding c me q m by simp
    then show ?thesis using Some nm by auto
  qed
qed


lemma label_at_chars: "c \<in> set (label_at e pos) \<Longrightarrow> subdomain_char c"
  using set_label_at [of e pos] by (auto simp: subdomain_char_def)

lemma label_at_not_Nil: "label_at e pos \<noteq> []"
  using length_label_at [of e pos] by auto

lemma candidates_labels:
  assumes "c \<in> set (candidates e ms w)"
    and "(if py_truthy ms then normalize_subdomain ms else []) = []"
  shows "\<exists>pos. c = label_at e pos"
  using assms by (auto simp: candidates_def Let_def simp del: upt_Suc)

lemma candidates_chars:
  assumes "c \<in> set (candidates e ms w)"
  shows "c \<noteq> [] \<and> (\<forall>ch\<in>set c. subdomain_char ch)"
proof (cases "(if py_truthy ms then normalize_subdomain ms else []) = []")
  case True
  from candidates_labels [OF assms True] show ?thesis
    using label_at_chars label_at_not_Nil by auto
next
  case False
  then have "c = normalize_subdomain ms \<or> (\<exists>pos. c = label_at e pos)"
    using assms by (auto simp: candidates_def Let_def simp del: upt_Suc split: if_splits)
  then show ?thesis
    using False label_at_chars label_at_not_Nil normalize_subdomain_chars [of ms]
    by (auto split: if_splits)
qed

lemma listed_hosts_fields [simp]:
  "listed_hosts e (w\<lparr>choices_drawn := k\<rparr>) = listed_hosts e w"
  "listed_hosts e (w\<lparr>uuids_drawn := u\<rparr>) = listed_hosts e w"
  "listed_hosts e (w\<lparr>domain_aliases := d\<rparr>) = listed_hosts e w"
  by (simp_all add: listed_hosts_def get_settings_def)

lemma plain_chars_strip_lower:
  assumes "\<forall>c\<in>set s. \<not> py_isspace c \<and> \<not> py_isupper c"
  shows "py_lower (py_strip s) = s"
  using assms by (simp add: py_strip_id py_lower_id)

lemma join_host_label:
  assumes "m \<noteq> []" and "\<forall>ch\<in>set m. subdomain_char ch" and "base \<noteq> []"
  shows "join_host m base = m @ ''.'' @ base"
proof -
  have "py_strip m = m" using assms(2) subdomain_char_plain by (intro py_strip_id) blast
  then show ?thesis using assms(1,3) by (simp add: join_host_def Let_def)
qed

lemma join_host_not_Nil: "base \<noteq> [] \<Longrightarrow> join_host s base \<noteq> []"
  by (simp add: join_host_def Let_def)

lemma subdomain_char_not_comma: "subdomain_char c \<Longrightarrow> c \<noteq> CHR '',''"
  unfolding subdomain_char_def RANDOM_ALPHABET_def by auto

lemma py_strip_Nil: "py_strip [] = []"
  by (simp add: py_strip_def py_lstrip_def py_rstrip_def)

lemma join_host_entry:
  assumes "\<forall>ch\<in>set s. subdomain_char ch" and "CHR '','' \<notin> set base"
    and "py_strip base \<noteq> []"
  shows "host_entry (py_lower (py_strip (join_host s base)))"
proof (rule host_entry_normalized)
  have b: "base \<noteq> []" using assms(3) by (auto simp: py_strip_Nil_iff)
  have sp: "py_strip s = s" using assms(1) subdomain_char_plain by (intro py_strip_id) blast
  have nc: "CHR '','' \<notin> set s"
    using assms(1) subdomain_char_not_comma by blast
  show "CHR '','' \<notin> set (join_host s base)"
    using nc assms(2) by (simp add: join_host_def Let_def sp)
  show "py_strip (join_host s base) \<noteq> []"
  proof (cases "s = []")
    case True
    then show ?thesis using assms(3) by (simp add: join_host_def Let_def py_strip_Nil)
  next
    case False
    then obtain c where "c \<in> set s" by (cases s) auto
    then have "c \<in> set (join_host s base)" "\<not> py_isspace c"
      using assms(1) subdomain_char_plain False b by (auto simp: join_host_def Let_def sp)
    then show ?thesis by (auto simp: py_strip_Nil_iff)
  qed
qed

lemma create_alias_Inr:
  assumes "create_alias e bd sd ms w = (Inr a, w')"
  shows "\<exists>m k r. normalize_domain bd \<noteq> []
     \<and> find (\<lambda>c. \<not> masked_exists w (normalize_domain bd) c) (candidates e ms w) = Some m
     \<and> \<not> masked_exists w (normalize_domain bd) m
     \<and> r = \<lparr>row_id = uuid_at e (uuids_drawn w), row_base_domain = normalize_domain bd,
             row_subdomain = normalize_subdomain (Some sd), row_masked_subdomain = m,
             row_created_at = clock w\<rparr>
     \<and> a = decorate_alias_row (Some r)
     \<and> domain_aliases w' = domain_aliases w @ [r]
     \<and> (\<forall>x\<in>set (domain_aliases w). row_masked_subdomain x \<noteq> m)
     \<and> w' = sync_ssl_hosts e [join_host (normalize_subdomain (Some sd)) (normalize_domain bd),
                               join_host m (normalize_domain bd)]
               (w\<lparr>choices_drawn := k, uuids_drawn := uuids_drawn w + 1,
                  domain_aliases := domain_aliases w @ [r]\<rparr>)"
proof -
  have b: "normalize_domain bd \<noteq> []"
    using assms by (auto simp: create_alias_def Let_def)
  from create_alias_cases [OF b] obtain k where
    k: "case find (\<lambda>c. \<not> masked_exists w (normalize_domain bd) c) (candidates e ms w) of
            None \<Rightarrow> create_alias e bd sd ms w
                      = (Inl AliasCollisionError, w\<lparr>choices_drawn := k\<rparr>)
          | Some m \<Rightarrow> \<not> masked_exists w (normalize_domain bd) m
                \<and> create_alias e bd sd ms w
                      = persist_alias e (normalize_domain bd) (normalize_subdomain (Some sd)) m
                          (w\<lparr>choices_drawn := k\<rparr>)"
    by blast
  then obtain m where m: "find (\<lambda>c. \<not> masked_exists w (normalize_domain bd) c) (candidates e ms w) = Some m"
    using assms by (cases "find (\<lambda>c. \<not> masked_exists w (normalize_domain bd) c) (candidates e ms w)") auto
  with k assms have nm: "\<not> masked_exists w (normalize_domain bd) m"
    and p: "persist_alias e (normalize_domain bd) (normalize_subdomain (Some sd)) m
              (w\<lparr>choices_drawn := k\<rparr>) = (Inr a, w')"
    by auto
  note q = persist_alias_Inr [OF p]
  show ?thesis
    using b m nm q by (auto simp: sync_ssl_hosts_aliases)
qed

lemma replicate_24: "replicate 24 c = [c,c,c,c,c,c,c,c,c,c,c,c,c,c,c,c,c,c,c,c,c,c,c,c]"
  by (simp add: numeral_eq_Suc)

lemma label_at_plain: "label_at plain_environment pos = ''aaaaaaaaaaaaaaaaaaaaaaaa''"
proof -
  have "label_at plain_environment pos = replicate 24 CHR ''a''"
    by (simp add: label_at_def plain_environment_def RANDOM_ALPHABET_def map_replicate_const)
  then show ?thesis by (simp add: replicate_24)
qed

lemma candidates_plain:
  "candidates plain_environment ms w =
     (if (if py_truthy ms then normalize_subdomain ms else []) = []
      then [''aaaaaaaaaaaaaaaaaaaaaaaa'', ''aaaaaaaaaaaaaaaaaaaaaaaa'',
            ''aaaaaaaaaaaaaaaaaaaaaaaa'', ''aaaaaaaaaaaaaaaaaaaaaaaa'',
            ''aaaaaaaaaaaaaaaaaaaaaaaa'', ''aaaaaaaaaaaaaaaaaaaaaaaa'']
      else [if py_truthy ms then normalize_subdomain ms else [],
            ''aaaaaaaaaaaaaaaaaaaaaaaa'', ''aaaaaaaaaaaaaaaaaaaaaaaa'',
            ''aaaaaaaaaaaaaaaaaaaaaaaa'', ''aaaaaaaaaaaaaaaaaaaaaaaa'',
            ''aaaaaaaaaaaaaaaaaaaaaaaa''])"
proof -
  have "map (\<lambda>j. x) [0 ..< 5] = [x, x, x, x, x]" for x :: string
    by (simp add: numeral_eq_Suc)
  then show ?thesis
    unfolding candidates_eq label_at_plain by simp
qed

lemma example_domain: "normalize_domain ''https://Example.com/'' = ''example.com''"
  by (simp add: normalize_defs py_string_defs)

lemma example_subdomain: "normalize_subdomain (Some ''Login Page'') = ''login-page''"
  by (simp add: normalize_defs py_string_defs)


lemma listed_hosts_empty_world: "listed_hosts plain_environment empty_world = {''sanexgroup.com''}"
  by (simp add: listed_hosts_def get_settings_def DEFAULT_SETTINGS_def empty_world_def
      current_ssl_hosts_def py_string_defs)

lemma listed_hosts_listed_world:
  "listed_hosts plain_environment listed_world
     = {''login-page.example.com'', ''aaaaaaaaaaaaaaaaaaaaaaaa.example.com''}"
  by (simp add: listed_hosts_def get_settings_def listed_world_def empty_world_def
      current_ssl_hosts_def py_string_defs)

lemma create_alias_example_run:
  assumes "domain_aliases w = []" and "uuids_drawn w = 0" and "clock w = 0"
  shows "create_alias plain_environment ''https://Example.com/'' ''Login Page'' None w
     = (Inr (Some example_alias),
        snd (create_alias plain_environment ''https://Example.com/'' ''Login Page'' None w))"
proof -
  have b: "normalize_domain ''https://Example.com/'' \<noteq> []" by (simp add: example_domain)
  have f: "find (\<lambda>c. \<not> masked_exists w ''example.com'' c)
      (candidates plain_environment None w) = Some ''aaaaaaaaaaaaaaaaaaaaaaaa''"
    using assms(1) by (simp add: candidates_plain masked_exists_def)
  from create_alias_cases [OF b, where w = w and e = plain_environment and ms = None
      and sd = "''Login Page''"]
  obtain k where "create_alias plain_environment ''https://Example.com/'' ''Login Page'' None w
      = persist_alias plain_environment ''example.com'' ''login-page'' ''aaaaaaaaaaaaaaaaaaaaaaaa''
          (w\<lparr>choices_drawn := k\<rparr>)"
    unfolding example_domain example_subdomain f by auto
  then have "fst (create_alias plain_environment ''https://Example.com/'' ''Login Page'' None w)
      = Inr (Some example_alias)"
    using assms
    by (simp add: persist_alias_def insert_alias_def fetch_alias_by_id_def example_alias_def
        plain_environment_def join_host_def host_to_url_def alias_row.extend_def Let_def
        py_string_defs)
  then show ?thesis by (metis prod.collapse)
qed

lemma listed_hosts_assigned:
  "listed_hosts e (w\<lparr>app_settings := f(''ssl_hosts'' \<mapsto> Some v)\<rparr>) = current_ssl_hosts v"
  by (simp add: listed_hosts_def get_settings_def)

lemma sorted_three:
  "sorted_list_of_set (insert ''a,b'' (insert ''m.a,b'' {''sanexgroup.com''}))
     = [''a,b'', ''m.a,b'', ''sanexgroup.com'']"
proof -
  have "insert ''a,b'' (insert ''m.a,b'' {''sanexgroup.com''})
      = set [''a,b'', ''m.a,b'', ''sanexgroup.com'']"
    by simp
  then show ?thesis
    by (simp only: sorted_list_of_set_sort_remdups) simp
qed

section \<open>Normalization applied twice\<close>

text \<open>
  C9 (as amended). \<open>_normalize_subdomain\<close> is idempotent on every input. \<open>_normalize_domain\<close>
  trims before it removes the scheme and the path, so its result can start or end with
  white space: applied to its own result it trims that result, and it is idempotent
  exactly on the inputs whose normal form has no white space at either end.
\<close>

theorem normalize_twice:
  "normalize_subdomain (Some (normalize_subdomain v)) = normalize_subdomain v
   \<and> normalize_domain (normalize_domain x) = py_strip (normalize_domain x)"
  using normalize_subdomain_fixed [OF normalize_subdomain_chars] normalize_domain_twice
  by simp

theorem normalize_twice_witness:
  "normalize_subdomain (Some (normalize_subdomain (Some ''Login Page''))) = ''login-page''
   \<and> normalize_domain (normalize_domain ''http:// Example.com/x'') = ''example.com''"
  using normalize_twice [of "Some ''Login Page''" "''http:// Example.com/x''"]
  by (simp add: normalize_defs py_string_defs)

text \<open>
  C9 as stated fails for the domain: \<open>"a /b"\<close> normalizes to \<open>"a "\<close>, which normalizes
  to \<open>"a"\<close>.
\<close>

theorem normalize_domain_not_idempotent:
  "normalize_domain (normalize_domain ''a /b'') \<noteq> normalize_domain ''a /b''"
  by (simp add: normalize_defs py_string_defs)

section \<open>DNS synchronization\<close>

text \<open>
  C2. With a non-empty address and a configured zone, a run of \<open>sync_a_records\<close> on a host
  list that returns has resolved the hosts as the specification says (lowercased, trimmed,
  blank entries dropped, first occurrences kept in order) and has exchanged with the
  provider, for each host in that order, a lookup of the A record by exact name that asks
  for one result, followed by an update of the found record's id (the value of the field
  \<open>id\<close> of the first result) or by a create, with the address and a TTL of 120; it returns
  the hosts in that order, each with \<open>updated\<close> or \<open>created\<close> accordingly. A run returns
  only if no provider call fails.
\<close>

theorem sync_upserts_in_order:
  assumes "ip \<noteq> []" and "py_truthy (zone_id cfg)"
    and "sync_a_records cfg prov ip (Some hosts) proxied st = (Inr results, st')"
  shows "take (length (snd st)) (snd st') = snd st
     \<and> spec_upserts (or_empty (zone_id cfg)) ip (spec_resolved_hosts hosts)
         (drop (length (snd st)) (snd st')) results
     \<and> map fst results = spec_resolved_hosts hosts
     \<and> list_all (\<lambda>x. snd x = ''updated'' \<or> snd x = ''created'') results"
proof -
  let ?hs = "spec_resolved_hosts hosts"
  have "sync_loop cfg prov (or_empty (zone_id cfg)) ip 120 (proxied_value cfg proxied) ?hs [] st
      = (Inr results, st')"
    using assms
    by (simp add: sync_a_records_def require_zone_id_def determine_hosts_spec Let_def
        split: if_splits)
  from sync_loop_spec [OF this] obtain new where
    n: "snd st' = snd st @ new" "spec_upserts (or_empty (zone_id cfg)) ip ?hs new results"
    by auto
  have m: "map fst res = hs \<and> list_all (\<lambda>x. snd x = ''updated'' \<or> snd x = ''created'') res"
    if "spec_upserts zone ip hs tr res" for zone hs tr res
    using that
    by (induction zone ip hs tr res rule: spec_upserts.induct)
       (auto split: option.splits)
  show ?thesis using n m [OF n(2)] by simp
qed

theorem sync_upserts_in_order_witness:
  "fst (sync_a_records token_config memory_zone ''203.0.113.5''
         (Some [''A.example.com '', ''b.example.com'', ''a.example.com'']) None
         ([[(''name'', ''a.example.com''), (''id'', ''r1''), (''content'', ''198.51.100.1'')]], []))
      = Inr [(''a.example.com'', ''updated''), (''b.example.com'', ''created'')]
   \<and> spec_upserts ''z1'' ''203.0.113.5'' [''a.example.com'', ''b.example.com'']
       (snd (snd (sync_a_records token_config memory_zone ''203.0.113.5''
         (Some [''A.example.com '', ''b.example.com'', ''a.example.com'']) None
         ([[(''name'', ''a.example.com''), (''id'', ''r1''), (''content'', ''198.51.100.1'')]], []))))
       [(''a.example.com'', ''updated''), (''b.example.com'', ''created'')]
   \<and> map (\<lambda>x. (req_method (fst x), req_url (fst x), map_option p_name (req_json (fst x))))
       (snd (snd (sync_a_records token_config memory_zone ''203.0.113.5''
         (Some [''A.example.com '', ''b.example.com'', ''a.example.com'']) None
         ([[(''name'', ''a.example.com''), (''id'', ''r1''), (''content'', ''198.51.100.1'')]], []))))
      = [(GET, ''https://api.cloudflare.com/client/v4/zones/z1/dns_records'', None),
         (PUT, ''https://api.cloudflare.com/client/v4/zones/z1/dns_records/r1'',
          Some ''a.example.com''),
         (GET, ''https://api.cloudflare.com/client/v4/zones/z1/dns_records'', None),
         (POST, ''https://api.cloudflare.com/client/v4/zones/z1/dns_records'',
          Some ''b.example.com'')]"
proof -
  let ?run = "sync_a_records token_config memory_zone ''203.0.113.5''
         (Some [''A.example.com '', ''b.example.com'', ''a.example.com'']) None
         ([[(''name'', ''a.example.com''), (''id'', ''r1''), (''content'', ''198.51.100.1'')]], [])"
  have f: "fst ?run = Inr [(''a.example.com'', ''updated''), (''b.example.com'', ''created'')]"
    by (simp add: dns_defs py_string_defs)
  then have r: "?run = (Inr [(''a.example.com'', ''updated''), (''b.example.com'', ''created'')],
      snd ?run)"
    by (metis prod.collapse)
  have u: "map (\<lambda>x. (req_method (fst x), req_url (fst x), map_option p_name (req_json (fst x))))
       (snd (snd ?run))
      = [(GET, ''https://api.cloudflare.com/client/v4/zones/z1/dns_records'', None),
         (PUT, ''https://api.cloudflare.com/client/v4/zones/z1/dns_records/r1'',
          Some ''a.example.com''),
         (GET, ''https://api.cloudflare.com/client/v4/zones/z1/dns_records'', None),
         (POST, ''https://api.cloudflare.com/client/v4/zones/z1/dns_records'',
          Some ''b.example.com'')]"
    by (simp add: dns_defs py_string_defs)
  have i: "''203.0.113.5'' \<noteq> []" by simp
  have z: "py_truthy (zone_id token_config)" by (simp add: token_config_def)
  have h: "spec_resolved_hosts [''A.example.com '', ''b.example.com'', ''a.example.com'']
      = [''a.example.com'', ''b.example.com'']"
    by (simp add: spec_resolved_hosts_def py_string_defs)
  have o: "or_empty (zone_id token_config) = ''z1''" by (simp add: token_config_def)
  show ?thesis using sync_upserts_in_order [OF i z r] f u by (simp add: h o)
qed

text \<open>
  C3 (as amended). With no host list, \<open>sync_a_records\<close> falls back to
  \<open>CloudflareConfig.ssl_hosts\<close>, the list read from the environment variable
  \<open>CLOUDFLARE_SSL_HOSTS\<close> at import: the run is the run on that list. It never reads the
  settings store.
\<close>

theorem sync_default_hosts:
  "determine_hosts cfg None = spec_resolved_hosts (ssl_hosts cfg)
   \<and> sync_a_records cfg prov ip None proxied st
       = sync_a_records cfg prov ip (Some (ssl_hosts cfg)) proxied st"
proof -
  have d: "determine_hosts cfg None = determine_hosts cfg (Some (ssl_hosts cfg))"
    by (simp add: determine_hosts_def)
  have "sync_a_records cfg prov ip None proxied st
      = sync_a_records cfg prov ip (Some (ssl_hosts cfg)) proxied st"
    unfolding sync_a_records_def d by (rule refl)
  then show ?thesis
    using determine_hosts_spec [of cfg "ssl_hosts cfg"] d by simp
qed

theorem sync_default_hosts_witness:
  "determine_hosts token_config None = [''b.example.com'']
   \<and> sync_a_records token_config memory_zone ''203.0.113.5'' None None ([], [])
       = sync_a_records token_config memory_zone ''203.0.113.5'' (Some [''b.example.com'']) None ([], [])"
proof -
  have "ssl_hosts token_config = [''b.example.com'']"
    by (simp add: ssl_hosts_def token_config_def py_string_defs)
  moreover have "spec_resolved_hosts [''b.example.com''] = [''b.example.com'']"
    by (simp add: spec_resolved_hosts_def py_string_defs)
  ultimately show ?thesis
    using sync_default_hosts [of token_config memory_zone "''203.0.113.5''" None "([], [])"]
    by simp
qed

text \<open>
  C3 as stated fails: the store's host-list setting holds \<open>a.example.com\<close>, the
  environment's list holds \<open>b.example.com\<close>, and the run without hosts creates the latter.
\<close>

theorem sync_default_ignores_settings:
  "default_host_list plain_environment settings_world = [''a.example.com'']
   \<and> fst (sync_a_records token_config memory_zone ''203.0.113.5'' None None ([], []))
       = Inr [(''b.example.com'', ''created'')]"
  by (simp add: dns_defs py_string_defs default_host_list_def get_settings_def
      settings_world_def empty_world_def)




text \<open>
  C8 (as amended). \<open>sync_a_records\<close> checks the address first, the zone second and the
  resolved host list third: an empty address fails with the validation error whatever
  the zone; otherwise a missing zone fails with the configuration error; otherwise an
  empty resolved host list fails with the validation error. In each case the network
  state is unchanged: no provider call of any kind is made.
\<close>

theorem sync_input_errors:
  "(ip = [] \<longrightarrow> sync_a_records cfg prov ip hosts proxied st = (Inl IpValidationError, st))
   \<and> (ip \<noteq> [] \<and> \<not> py_truthy (zone_id cfg)
        \<longrightarrow> sync_a_records cfg prov ip hosts proxied st = (Inl ZoneConfigurationError, st))
   \<and> (ip \<noteq> [] \<and> py_truthy (zone_id cfg) \<and> determine_hosts cfg hosts = []
        \<longrightarrow> sync_a_records cfg prov ip hosts proxied st = (Inl HostsValidationError, st))"
  by (simp add: sync_a_records_def require_zone_id_def)

theorem sync_input_errors_witness:
  "sync_a_records token_config memory_zone [] (Some [''a.example.com'']) None ([], [])
     = (Inl IpValidationError, ([], []))
   \<and> sync_a_records email_only_config memory_zone ''203.0.113.5'' (Some [''a.example.com'']) None ([], [])
     = (Inl ZoneConfigurationError, ([], []))
   \<and> sync_a_records token_config memory_zone ''203.0.113.5'' (Some ['' '']) None ([], [])
     = (Inl HostsValidationError, ([], []))"
proof -
  have "determine_hosts token_config (Some ['' '']) = []"
    by (simp add: determine_hosts_def py_string_defs)
  then show ?thesis
    using sync_input_errors [of "[]" token_config memory_zone "Some [''a.example.com'']" None "([], [])"]
      sync_input_errors [of "''203.0.113.5''" email_only_config memory_zone
        "Some [''a.example.com'']" None "([], [])"]
      sync_input_errors [of "''203.0.113.5''" token_config memory_zone "Some ['' '']" None "([], [])"]
    by (simp add: token_config_def email_only_config_def)
qed

text \<open>
  C8 as stated fails where no zone is configured and the address is empty: the failure
  is the validation error of the address, not the configuration error.
\<close>

theorem sync_empty_ip_before_zone:
  "\<not> py_truthy (zone_id email_only_config)
   \<and> fst (sync_a_records email_only_config memory_zone [] (Some [''a.example.com'']) None ([], []))
       \<noteq> Inl ZoneConfigurationError"
  by (simp add: sync_a_records_def email_only_config_def)

section \<open>Tunnel commands and the audit log\<close>




section \<open>The alias registry\<close>



text \<open>
  C4 (as amended). A call of \<open>create_alias\<close> that returns has written the host-list
  setting only if the target host or the masked host, trimmed and lowercased, was not
  listed, and then as the sorted list of the hosts listed before and these two. When the
  normalized base domain holds no comma and is not blank, the setting afterwards lists
  exactly the hosts listed before and these two. For the example call the row has base
  domain \<open>example.com\<close>, subdomain \<open>login-page\<close> and a label of 24 characters, and both
  hosts are listed afterwards.
\<close>

theorem create_alias_propagates_hosts:
  assumes "create_alias e bd sd ms w = (Inr a, w')"
  shows "\<exists>v. a = Some v
     \<and> (CHR '','' \<notin> set (normalize_domain bd) \<and> py_strip (normalize_domain bd) \<noteq> []
          \<longrightarrow> listed_hosts e w'
                = insert (py_lower (py_strip (target_host v)))
                    (insert (py_lower (py_strip (masked_host v))) (listed_hosts e w)))
     \<and> (py_lower (py_strip (target_host v)) \<in> listed_hosts e w
          \<and> py_lower (py_strip (masked_host v)) \<in> listed_hosts e w
          \<longrightarrow> app_settings w' = app_settings w)
     \<and> (app_settings w' \<noteq> app_settings w
          \<longrightarrow> app_settings w' = (app_settings w)(''ssl_hosts'' \<mapsto>
                 Some (py_join '', '' (sorted_list_of_set
                   (insert (py_lower (py_strip (target_host v)))
                      (insert (py_lower (py_strip (masked_host v))) (listed_hosts e w)))))))
     \<and> (bd = ''https://Example.com/'' \<and> sd = ''Login Page'' \<and> ms = None
          \<longrightarrow> row_base_domain v = ''example.com'' \<and> row_subdomain v = ''login-page''
              \<and> length (row_masked_subdomain v) = 24
              \<and> ''login-page.example.com'' \<in> listed_hosts e w'
              \<and> row_masked_subdomain v @ ''.example.com'' \<in> listed_hosts e w')"
proof -
  let ?base = "normalize_domain bd"
  let ?sub = "normalize_subdomain (Some sd)"
  from create_alias_Inr [OF assms] obtain m k row where
    c: "?base \<noteq> []"
       "find (\<lambda>c. \<not> masked_exists w ?base c) (candidates e ms w) = Some m"
       "row = \<lparr>row_id = uuid_at e (uuids_drawn w), row_base_domain = ?base,
             row_subdomain = ?sub, row_masked_subdomain = m, row_created_at = clock w\<rparr>"
       "a = decorate_alias_row (Some row)"
       "w' = sync_ssl_hosts e [join_host ?sub ?base, join_host m ?base]
               (w\<lparr>choices_drawn := k, uuids_drawn := uuids_drawn w + 1,
                  domain_aliases := domain_aliases w @ [row]\<rparr>)"
    by blast
  let ?h1 = "join_host ?sub ?base" and ?h2 = "join_host m ?base"
  let ?n1 = "py_lower (py_strip ?h1)" and ?n2 = "py_lower (py_strip ?h2)"
  let ?w2 = "w\<lparr>choices_drawn := k, uuids_drawn := uuids_drawn w + 1,
                  domain_aliases := domain_aliases w @ [row]\<rparr>"
  obtain v where v: "a = Some v" "target_host v = ?h1" "masked_host v = ?h2"
      "row_base_domain v = ?base" "row_subdomain v = ?sub" "row_masked_subdomain v = m"
    using c(3,4) by (simp add: Let_def alias_row.extend_def)
  have mc: "m \<in> set (candidates e ms w)" using c(2) by (auto simp: find_Some_iff)
  note mch = candidates_chars [OF mc]
  have ne: "?h1 \<noteq> []" "?h2 \<noteq> []" using c(1) by (simp_all add: join_host_not_Nil)
  have l2: "listed_hosts e ?w2 = listed_hosts e w" by simp
  have a2: "app_settings ?w2 = app_settings w" by simp
  note s2 = sync_ssl_hosts_two [OF ne, of e ?w2, unfolded l2]
  have p1: "listed_hosts e w' = insert ?n1 (insert ?n2 (listed_hosts e w))"
    if "CHR '','' \<notin> set ?base" "py_strip ?base \<noteq> []"
  proof -
    have "host_entry ?n1"
      using normalize_subdomain_chars that by (intro join_host_entry) auto
    moreover have "host_entry ?n2" using mch that by (intro join_host_entry) auto
    ultimately show ?thesis
      unfolding c(5) using listed_hosts_after_sync [OF ne, of e ?w2] l2 by simp
  qed
  have p2: "app_settings w' = app_settings w" if "?n1 \<in> listed_hosts e w \<and> ?n2 \<in> listed_hosts e w"
    unfolding c(5) s2 using that by simp
  have p3: "app_settings w' = (app_settings w)(''ssl_hosts'' \<mapsto>
                 Some (py_join '', '' (sorted_list_of_set
                   (insert ?n1 (insert ?n2 (listed_hosts e w))))))"
    if "app_settings w' \<noteq> app_settings w"
    using that unfolding c(5) s2 by (simp split: if_splits)
  have p4: "row_base_domain v = ''example.com'' \<and> row_subdomain v = ''login-page''
              \<and> length (row_masked_subdomain v) = 24
              \<and> ''login-page.example.com'' \<in> listed_hosts e w'
              \<and> row_masked_subdomain v @ ''.example.com'' \<in> listed_hosts e w'"
    if ex: "bd = ''https://Example.com/'' \<and> sd = ''Login Page'' \<and> ms = None"
  proof -
    have b: "?base = ''example.com''" and s: "?sub = ''login-page''"
      using ex by (simp_all add: example_domain example_subdomain)
    obtain pos where m: "m = label_at e pos"
      using candidates_labels [OF mc] ex by auto
    have hy: "CHR '','' \<notin> set ?base" "py_strip ?base \<noteq> []"
      unfolding b by (simp_all add: py_string_defs)
    have n1: "?n1 = ''login-page.example.com''"
      unfolding b s by (simp add: join_host_def py_string_defs)
    have h2: "?h2 = m @ ''.example.com''"
      using join_host_label [of m ?base] mch c(1) unfolding b by simp
    have "\<forall>c\<in>set (m @ ''.example.com''). \<not> py_isspace c \<and> \<not> py_isupper c"
      using mch subdomain_char_plain by (auto simp: py_isspace_def py_isupper_def)
    then have n2: "?n2 = m @ ''.example.com''"
      unfolding h2 by (rule plain_chars_strip_lower)
    show ?thesis
      using p1 [OF hy] v b s n1 n2 m by (simp add: length_label_at)
  qed
  show ?thesis
    using v p1 p2 p3 p4 by (intro exI [of _ v]) simp
qed

theorem create_alias_propagates_hosts_witness:
  "listed_hosts plain_environment
     (snd (create_alias plain_environment ''https://Example.com/'' ''Login Page'' None empty_world))
     = {''login-page.example.com'', ''aaaaaaaaaaaaaaaaaaaaaaaa.example.com'', ''sanexgroup.com''}
   \<and> app_settings
         (snd (create_alias plain_environment ''https://Example.com/'' ''Login Page'' None
                 listed_world))
       = app_settings listed_world"
proof -
  let ?r = "create_alias plain_environment ''https://Example.com/'' ''Login Page'' None"
  have c: "?r empty_world = (Inr (Some example_alias), snd (?r empty_world))"
    by (rule create_alias_example_run) (simp_all add: empty_world_def)
  have d: "?r listed_world = (Inr (Some example_alias), snd (?r listed_world))"
    by (rule create_alias_example_run) (simp_all add: listed_world_def empty_world_def)
  have h: "CHR '','' \<notin> set (normalize_domain ''https://Example.com/'')
      \<and> py_strip (normalize_domain ''https://Example.com/'') \<noteq> []"
    by (simp add: example_domain py_string_defs)
  have t: "py_lower (py_strip (target_host example_alias)) = ''login-page.example.com''"
    "py_lower (py_strip (masked_host example_alias)) = ''aaaaaaaaaaaaaaaaaaaaaaaa.example.com''"
    by (simp_all add: example_alias_def py_string_defs)
  have 1: "listed_hosts plain_environment (snd (?r empty_world))
      = {''login-page.example.com'', ''aaaaaaaaaaaaaaaaaaaaaaaa.example.com'', ''sanexgroup.com''}"
    using create_alias_propagates_hosts [OF c] h t by (simp add: listed_hosts_empty_world)
  have 2: "app_settings (snd (?r listed_world)) = app_settings listed_world"
    using create_alias_propagates_hosts [OF d] t by (simp add: listed_hosts_listed_world)
  show ?thesis using 1 2 by simp
qed

text \<open>
  C4 as stated fails for a base domain with a comma: the call returns, and the list
  written is read back as other hosts.
\<close>

theorem comma_host_not_listed:
  "fst (create_alias plain_environment ''a,b'' [] (Some ''m'') empty_world)
     = Inr (Some \<lparr>row_id = ''0'', row_base_domain = ''a,b'', row_subdomain = [],
                 row_masked_subdomain = ''m'', row_created_at = 0,
                 target_host = ''a,b'', masked_host = ''m.a,b'',
                 target_url = ''https://a,b'', masked_url = ''https://m.a,b''\<rparr>)
   \<and> listed_hosts plain_environment
         (snd (create_alias plain_environment ''a,b'' [] (Some ''m'') empty_world))
       = {''a'', ''b'', ''m.a'', ''sanexgroup.com''}
   \<and> ''a,b'' \<notin> listed_hosts plain_environment
         (snd (create_alias plain_environment ''a,b'' [] (Some ''m'') empty_world))"
proof -
  let ?r = "create_alias plain_environment ''a,b'' [] (Some ''m'') empty_world"
  let ?v = "\<lparr>row_id = ''0'', row_base_domain = ''a,b'', row_subdomain = [],
                 row_masked_subdomain = ''m'', row_created_at = 0,
                 target_host = ''a,b'', masked_host = ''m.a,b'',
                 target_url = ''https://a,b'', masked_url = ''https://m.a,b''\<rparr>"
  have nd: "normalize_domain ''a,b'' = ''a,b''"
    and ns: "normalize_subdomain (Some []) = []"
    and nm: "normalize_subdomain (Some ''m'') = ''m''"
    by (simp_all add: normalize_defs py_string_defs)
  have b: "normalize_domain ''a,b'' \<noteq> []" by (simp add: nd)
  have f: "find (\<lambda>c. \<not> masked_exists empty_world ''a,b'' c)
      (candidates plain_environment (Some ''m'') empty_world) = Some ''m''"
    by (simp add: candidates_plain nm masked_exists_def empty_world_def)
  from create_alias_cases [OF b, where w = empty_world and e = plain_environment
      and ms = "Some ''m''" and sd = "[]"]
  obtain k where "?r = persist_alias plain_environment ''a,b'' [] ''m''
          (empty_world\<lparr>choices_drawn := k\<rparr>)"
    unfolding nd ns f by auto
  then have 1: "fst ?r = Inr (Some ?v)"
    by (simp add: persist_alias_def insert_alias_def fetch_alias_by_id_def empty_world_def
        plain_environment_def join_host_def host_to_url_def alias_row.extend_def Let_def
        py_string_defs)
  then have "?r = (Inr (Some ?v), snd ?r)" by (metis prod.collapse)
  from create_alias_Inr [OF this] obtain m' k' row where
    c: "find (\<lambda>c. \<not> masked_exists empty_world (normalize_domain ''a,b'') c)
          (candidates plain_environment (Some ''m'') empty_world) = Some m'"
       "snd ?r = sync_ssl_hosts plain_environment
               [join_host (normalize_subdomain (Some [])) (normalize_domain ''a,b''),
                join_host m' (normalize_domain ''a,b'')]
               (empty_world\<lparr>choices_drawn := k', uuids_drawn := uuids_drawn empty_world + 1,
                  domain_aliases := domain_aliases empty_world @ [row]\<rparr>)"
    by blast
  have m': "m' = ''m''" using c(1) f unfolding nd by simp
  have j: "join_host [] ''a,b'' = ''a,b''" "join_host ''m'' ''a,b'' = ''m.a,b''"
    by (simp_all add: join_host_def py_string_defs)
  have n: "py_lower (py_strip ''a,b'') = ''a,b''" "py_lower (py_strip ''m.a,b'') = ''m.a,b''"
    by (simp_all add: py_string_defs)
  have "listed_hosts plain_environment (snd ?r)
      = current_ssl_hosts (py_join '', '' [''a,b'', ''m.a,b'', ''sanexgroup.com''])"
    unfolding c(2) m' nd ns j
    by (subst sync_ssl_hosts_two)
       (simp_all add: n listed_hosts_empty_world listed_hosts_assigned sorted_three)
  also have "\<dots> = {''a'', ''b'', ''m.a'', ''sanexgroup.com''}"
    by (simp add: current_ssl_hosts_def py_string_defs) blast
  finally have 2: "listed_hosts plain_environment (snd ?r) = {''a'', ''b'', ''m.a'', ''sanexgroup.com''}" .
  show ?thesis using 1 2 by simp
qed

text \<open>
  C10. A masked label that is supplied but normalizes to the empty string is ignored: the
  call is the call without a label, and when it returns a row its label is the first free
  one of six generated labels, 24 characters of the random alphabet.
\<close>

theorem blank_masked_label_is_generated:
  assumes "normalize_subdomain (Some m) = []"
  shows "create_alias e bd sd (Some m) w = create_alias e bd sd None w
     \<and> (\<forall>v w'. create_alias e bd sd (Some m) w = (Inr (Some v), w')
          \<longrightarrow> length (row_masked_subdomain v) = 24
              \<and> list_all (\<lambda>c. c \<in> set RANDOM_ALPHABET) (row_masked_subdomain v)
              \<and> find (\<lambda>c. \<not> masked_exists w (normalize_domain bd) c)
                   (map (\<lambda>j. label_at e (choices_drawn w + 24 * j)) [0 ..< 6])
                 = Some (row_masked_subdomain v))"
proof -
  have s: "(if py_truthy (Some m) then normalize_subdomain (Some m) else []) = []"
    using assms by simp
  have eq: "create_alias e bd sd (Some m) w = create_alias e bd sd None w"
    unfolding create_alias_def s by simp
  have cs: "candidates e (Some m) w = map (\<lambda>j. label_at e (choices_drawn w + 24 * j)) [0 ..< 6]"
    unfolding candidates_def s by (simp del: upt_Suc)
  have "length (row_masked_subdomain v) = 24
      \<and> list_all (\<lambda>c. c \<in> set RANDOM_ALPHABET) (row_masked_subdomain v)
      \<and> find (\<lambda>c. \<not> masked_exists w (normalize_domain bd) c)
           (map (\<lambda>j. label_at e (choices_drawn w + 24 * j)) [0 ..< 6])
         = Some (row_masked_subdomain v)"
    if run: "create_alias e bd sd (Some m) w = (Inr (Some v), w')" for v w'
  proof -
    from create_alias_Inr [OF run] obtain m' row where
      c: "find (\<lambda>c. \<not> masked_exists w (normalize_domain bd) c) (candidates e (Some m) w) = Some m'"
         "row = \<lparr>row_id = uuid_at e (uuids_drawn w), row_base_domain = normalize_domain bd,
             row_subdomain = normalize_subdomain (Some sd), row_masked_subdomain = m',
             row_created_at = clock w\<rparr>"
         "Some v = decorate_alias_row (Some row)"
      by blast
    have mv: "row_masked_subdomain v = m'"
      using c(2,3) by (simp add: Let_def alias_row.extend_def)
    have "m' \<in> set (candidates e (Some m) w)" using c(1) by (auto simp: find_Some_iff)
    from candidates_labels [OF this s] obtain pos where "m' = label_at e pos" by blast
    then show ?thesis
      using c(1) mv set_label_at [of e pos] unfolding cs
      by (auto simp: length_label_at list_all_iff)
  qed
  then show ?thesis using eq by blast
qed

theorem blank_masked_label_is_generated_witness:
  "create_alias plain_environment ''https://Example.com/'' ''Login Page'' (Some ''***'') empty_world
     = create_alias plain_environment ''https://Example.com/'' ''Login Page'' None empty_world
   \<and> fst (create_alias plain_environment ''https://Example.com/'' ''Login Page'' (Some ''***'')
            empty_world) = Inr (Some example_alias)
   \<and> length (row_masked_subdomain example_alias) = 24"
proof -
  let ?r = "create_alias plain_environment ''https://Example.com/'' ''Login Page''"
  have n: "normalize_subdomain (Some ''***'') = []"
    by (simp add: normalize_defs py_string_defs)
  note t = blank_masked_label_is_generated [OF n, of plain_environment "''https://Example.com/''"
      "''Login Page''" empty_world]
  have c: "?r None empty_world = (Inr (Some example_alias), snd (?r None empty_world))"
    by (rule create_alias_example_run) (simp_all add: empty_world_def)
  then have "?r (Some ''***'') empty_world = (Inr (Some example_alias), snd (?r None empty_world))"
    using t by simp
  then show ?thesis using t by (metis fst_conv)
qed

section \<open>Public address discovery\<close>


end
